theory Spec2Isabelle
  imports Main "HOL-Library.Word"
begin

section \<open>Data model\<close>

text \<open>
  Modelled from the spec: the classes \<^verbatim>\<open>Role\<close>, \<^verbatim>\<open>Attachment\<close>, \<^verbatim>\<open>CustomContent\<close> and
  \<^verbatim>\<open>Message\<close> of \<^verbatim>\<open>task/_models\<close>, which are not among the sources. Section 3 gives their
  fields; the three scripts only construct them by keyword and read their fields, so they
  are plain data here, with the field names the scripts use.
\<close>

type_synonym bytes = "8 word list"

datatype Role = SYSTEM | USER | ASSISTANT

record Attachment =
  title :: string
  url :: "string option"
  type :: string

record CustomContent =
  attachments :: "Attachment list"

text \<open>
  \<^verbatim>\<open>Message\<close> is the class of the requests the scripts build and of the response that
  \<^verbatim>\<open>get_completion\<close> returns; a response may lack either field, so both are optional.
\<close>

record Message =
  role :: Role
  content :: "string option"
  custom_content :: "CustomContent option"

text \<open>
  Modelled from the spec: the content parts \<^verbatim>\<open>TxtContent\<close>, \<^verbatim>\<open>ImgContent\<close> and \<^verbatim>\<open>ImgUrl\<close> and the
  class \<^verbatim>\<open>ContentedMessage\<close> of \<^verbatim>\<open>task/image_to_text/openai/message.py\<close>, which is not among
  the sources: a text part holds a text, an image part holds an url, a multimodal message
  holds a role and an ordered sequence of parts.
\<close>

datatype ImgUrl = ImgUrl string

datatype Content = TxtContent string | ImgContent ImgUrl

record ContentedMessage =
  cm_role :: Role
  cm_content :: "Content list"

text \<open>The list given to \<^verbatim>\<open>get_completion\<close> holds objects of either message class.\<close>

datatype AnyMessage = Plain Message | Contented ContentedMessage

type_synonym custom_fields = "(string \<times> string) list"

datatype cause = timeout | network_unreachable | auth_failure | remote_rejected nat | decode_failure

datatype error =
    InvalidMessageError
  | RequestError cause
  | UploadError cause
  | DownloadError cause
  | DecodeError
  | OSError
  | KeyError

record datetime =
  year :: nat
  month :: nat
  day :: nat
  hour :: nat
  minute :: nat
  second :: nat

section \<open>Effects\<close>

text \<open>
  Everything a script does to the outside is an event of its trace, in program order.
  \<open>SessionAcquired\<close> and \<open>SessionReleased\<close> are the \<^verbatim>\<open>__aenter__\<close> and \<^verbatim>\<open>__aexit__\<close> of the
  bucket client inside \<^verbatim>\<open>async with\<close>.
\<close>

datatype event =
    Print string
  | NewModelClient string string string
  | GetCompletion "AnyMessage list" "custom_fields option"
  | NewBucketClient string string
  | SessionAcquired
  | SessionReleased
  | ReadFile string
  | PutFile string string bytes
  | GetFile string
  | WriteFile string bytes

text \<open>
  The outside world: the constants of \<^verbatim>\<open>task/_utils/constants.py\<close>, the file system, the
  clock, and the answers of the gateway and of the store. A call that raises answers with
  \<open>Inl\<close> (or \<open>Some\<close> error for a call without a result). The gateway is asked by call
  number, the store's download and the clock by loop index, so that equal requests may be
  answered differently.
\<close>

record world =
  API_KEY :: string
  DIAL_URL :: string
  DIAL_CHAT_COMPLETIONS_ENDPOINT :: string
  project_root :: string
  read_file :: "string \<Rightarrow> error + bytes"
  write_file :: "string \<Rightarrow> bytes \<Rightarrow> error option"
  now :: "nat \<Rightarrow> datetime"
  get_completion :: "nat \<Rightarrow> AnyMessage list \<Rightarrow> custom_fields option \<Rightarrow> error + Message"
  aenter :: "error option"
  aexit :: "error option"
  put_file :: "string \<Rightarrow> string \<Rightarrow> bytes \<Rightarrow> error + (string \<times> string) list"
  get_file :: "nat \<Rightarrow> string \<Rightarrow> error + bytes"

text \<open>A computation yields its trace and either the exception that ended it or its value.\<close>

type_synonym 'a io = "event list \<times> (error + 'a)"

definition ret :: "'a \<Rightarrow> 'a io" where
  "ret x = ([], Inr x)"

definition emit :: "event \<Rightarrow> unit io" where
  "emit ev = ([ev], Inr ())"

definition call :: "event \<Rightarrow> error + 'a \<Rightarrow> 'a io" where
  "call ev r = ([ev], r)"

definition io_bind :: "'a io \<Rightarrow> ('a \<Rightarrow> 'b io) \<Rightarrow> 'b io" where
  "io_bind m f =
     (case m of
        (t, Inl e) \<Rightarrow> (t, Inl e)
      | (t, Inr x) \<Rightarrow> (case f x of (t', r) \<Rightarrow> (t @ t', r)))"

definition io_then :: "unit io \<Rightarrow> 'a io \<Rightarrow> 'a io" where
  "io_then m k = io_bind m (\<lambda>_. k)"

fun io_seq :: "unit io list \<Rightarrow> unit io" where
  "io_seq [] = ret ()"
| "io_seq (m # ms) = io_then m (io_seq ms)"

definition print :: "string \<Rightarrow> unit io" where
  "print s = emit (Print s)"

text \<open>
  Modelled from the spec: \<^verbatim>\<open>__aenter__\<close> and \<^verbatim>\<open>__aexit__\<close> of \<^verbatim>\<open>DialBucketClient\<close>
  (\<^verbatim>\<open>task/_utils/bucket_client.py\<close>, not among the sources). Section 6: the client is a scoped
  resource, opened before use and closed after; entering it acquires the session and
  leaving it releases the session.

  The statement \<^verbatim>\<open>async with DialBucketClient(...) as bucket_client: body\<close> itself is the
  language's: if \<^verbatim>\<open>__aenter__\<close> raises there is no session and the body does not run;
  otherwise \<^verbatim>\<open>__aexit__\<close> runs when the body is left, by its end, by \<^verbatim>\<open>return\<close> or by an
  exception; an exception of the body goes on after it, and one raised by \<^verbatim>\<open>__aexit__\<close>
  itself replaces the body's outcome.
\<close>

definition async_with_bucket_client :: "world \<Rightarrow> 'a io \<Rightarrow> 'a io" where
  "async_with_bucket_client w body =
     (case aenter w of
        Some e \<Rightarrow> ([NewBucketClient (API_KEY w) (DIAL_URL w)], Inl e)
      | None \<Rightarrow>
          (case body of (t, r) \<Rightarrow>
             ([NewBucketClient (API_KEY w) (DIAL_URL w), SessionAcquired] @ t @ [SessionReleased],
              (case aexit w of Some e \<Rightarrow> Inl e | None \<Rightarrow> r))))"

section \<open>Python's \<^verbatim>\<open>str\<close> and \<^verbatim>\<open>strftime\<close>\<close>

definition digit_char :: "nat \<Rightarrow> char" where
  "digit_char d = char_of (48 + d)"

function str_nat :: "nat \<Rightarrow> string" where
  "str_nat n = (if n < 10 then [digit_char n] else str_nat (n div 10) @ [digit_char (n mod 10)])"
  by pat_completeness auto
termination
  by (relation "measure id") auto

declare str_nat.simps [simp del]

text \<open>An absent value is formatted as \<^verbatim>\<open>None\<close> by an f-string.\<close>

definition str_opt :: "string option \<Rightarrow> string" where
  "str_opt v = (case v of None \<Rightarrow> ''None'' | Some s \<Rightarrow> s)"

definition zpad2 :: "nat \<Rightarrow> string" where
  "zpad2 n = (if n < 10 then ''0'' @ str_nat n else str_nat n)"

text \<open>\<^verbatim>\<open>strftime("%Y%m%d_%H%M%S")\<close>, for the four-digit years of a present-day clock.\<close>

definition strftime :: "datetime \<Rightarrow> string" where
  "strftime dt =
     str_nat (year dt) @ zpad2 (month dt) @ zpad2 (day dt) @ ''_'' @
     zpad2 (hour dt) @ zpad2 (minute dt) @ zpad2 (second dt)"

text \<open>Truth value of an optional string: \<^verbatim>\<open>None\<close> and the empty string are false.\<close>

definition truthy :: "string option \<Rightarrow> bool" where
  "truthy v = (case v of None \<Rightarrow> False | Some s \<Rightarrow> s \<noteq> [])"

section \<open>Text to image: \<^verbatim>\<open>task/text_to_image/task_tti.py\<close>\<close>

definition Size_square :: string where "Size_square = ''1024x1024''"
definition Size_height_rectangle :: string where "Size_height_rectangle = ''1024x1792''"
definition Size_width_rectangle :: string where "Size_width_rectangle = ''1792x1024''"

definition Style_natural :: string where "Style_natural = ''natural''"
definition Style_vivid :: string where "Style_vivid = ''vivid''"

definition Quality_standard :: string where "Quality_standard = ''standard''"
definition Quality_hd :: string where "Quality_hd = ''hd''"

definition rule80 :: string where
  "rule80 = replicate 80 CHR ''=''"

definition image_file_name :: "string \<Rightarrow> nat \<Rightarrow> string" where
  "image_file_name timestamp idx =
     ''generated_image_'' @ timestamp @ ''_'' @ str_nat (idx + 1) @ ''.png''"

text \<open>One pass of the loop body of \<^verbatim>\<open>_save_images\<close>, for index \<open>idx\<close> of \<open>n\<close> attachments.\<close>

definition save_image :: "world \<Rightarrow> nat \<Rightarrow> nat \<Rightarrow> Attachment \<Rightarrow> unit io" where
  "save_image w n idx attachment =
     (if truthy (url attachment) then
        io_then (print (''\<newline>Downloading image '' @ str_nat (idx + 1) @ ''/'' @ str_nat n @ ''...''))
        (io_bind (call (GetFile (the (url attachment))) (get_file w idx (the (url attachment))))
           (\<lambda>image_bytes.
              let timestamp = strftime (now w idx);
                  file_name = image_file_name timestamp idx
              in io_then
                   (case write_file w file_name image_bytes of
                      Some e \<Rightarrow> ([], Inl e)
                    | None \<Rightarrow> emit (WriteFile file_name image_bytes))
                   (print (''Image saved locally as: '' @ file_name))))
      else ret ())"

fun save_images_loop :: "world \<Rightarrow> nat \<Rightarrow> nat \<Rightarrow> Attachment list \<Rightarrow> unit io" where
  "save_images_loop w n idx [] = ret ()"
| "save_images_loop w n idx (attachment # rest) =
     io_then (save_image w n idx attachment) (save_images_loop w n (idx + 1) rest)"

definition save_images :: "world \<Rightarrow> Attachment list \<Rightarrow> unit io" where
  "save_images w atts =
     async_with_bucket_client w (save_images_loop w (length atts) 0 atts)"

fun print_attachments :: "nat \<Rightarrow> Attachment list \<Rightarrow> unit io" where
  "print_attachments idx [] = ret ()"
| "print_attachments idx (attachment # rest) =
     io_then
       (io_seq
          [print (''Image '' @ str_nat (idx + 1) @ '':''),
           print (''  - Title: '' @ title attachment),
           print (''  - URL: '' @ str_opt (url attachment)),
           print (''  - Type: '' @ type attachment)])
       (print_attachments (idx + 1) rest)"

text \<open>
  The test of line 100, \<^verbatim>\<open>response.custom_content and response.custom_content.attachments\<close>:
  an absent custom content and an empty attachment list are both false.
\<close>

definition has_attachments :: "Message \<Rightarrow> bool" where
  "has_attachments response =
     (case custom_content response of
        None \<Rightarrow> False
      | Some cc \<Rightarrow> attachments cc \<noteq> [])"

text \<open>\<^verbatim>\<open>d[k]\<close> on a dict: a missing key raises.\<close>

definition subscript :: "custom_fields \<Rightarrow> string \<Rightarrow> string io" where
  "subscript d k = (case map_of d k of None \<Rightarrow> ([], Inl KeyError) | Some v \<Rightarrow> ret v)"

definition start_tti :: "world \<Rightarrow> unit io" where
  "start_tti w =
     (let deployment_name = ''dall-e-3'' in
      io_then
        (io_seq
           [print (''\<newline>'' @ rule80),
            print ''Text-to-Image Generation Task'',
            print (rule80 @ ''\<newline>''),
            print (''Using model: '' @ deployment_name),
            print ''Note: If this model doesn't work, try these alternatives:'',
            print ''  - dalle-3'',
            print ''  - dall-e'',
            print ''  - imagegeneration'',
            print ''Or check available models at: https://ai-proxy.lab.epam.com/openai/models\<newline>'',
            emit (NewModelClient (DIAL_CHAT_COMPLETIONS_ENDPOINT w) deployment_name (API_KEY w))])
        (let prompt = ''Sunny day on Bali'';
             custom_fields =
               [(''size'', Size_square), (''quality'', Quality_hd), (''style'', Style_vivid)];
             message = \<lparr>role = USER, content = Some prompt, custom_content = None\<rparr>
         in io_then
              (io_seq
                 [print (''Generating image for prompt: '' @ [CHR 0x27] @ prompt @ [CHR 0x27] @ ''\<newline>''),
                  print ''Sending request to image generation model...\<newline>''])
              (io_bind
                 (call (GetCompletion [Plain message] (Some custom_fields))
                    (get_completion w 0 [Plain message] (Some custom_fields)))
                 (\<lambda>response.
                    io_then
                      (io_seq
                         [print (''\<newline>'' @ rule80),
                          print ''Image generation completed!'',
                          print rule80,
                          print (''\<newline>Response content: '' @ str_opt (content response) @ ''\<newline>'')])
                      (if has_attachments response then
                         (let atts = attachments (the (custom_content response)) in
                          io_seq
                            [print (''Number of generated images: '' @ str_nat (length atts) @ ''\<newline>''),
                             print_attachments 0 atts,
                             print (''\<newline>'' @ rule80),
                             print ''Saving images locally...'',
                             print rule80,
                             save_images w atts,
                             print (''\<newline>'' @ rule80),
                             print ''All images saved successfully!'',
                             print rule80,
                             print ''\<newline>Configuration used:'',
                             io_bind (subscript custom_fields ''size'') (\<lambda>v. print (''  - Size: '' @ v)),
                             io_bind (subscript custom_fields ''quality'') (\<lambda>v. print (''  - Quality: '' @ v)),
                             io_bind (subscript custom_fields ''style'') (\<lambda>v. print (''  - Style: '' @ v)),
                             print ''\<newline>Tip: You can modify custom_fields to change image parameters!'',
                             print ''Try different sizes: square, height_rectangle, width_rectangle'',
                             print ''Try different styles: natural, vivid'',
                             print ''Try different quality: standard, hd'',
                             print (rule80 @ ''\<newline>'')])
                       else print ''\<newline>Warning: No images were generated in the response.\<newline>'')))))"

text \<open>The requests a trace sent to the gateway, in order.\<close>

fun completion_calls :: "event list \<Rightarrow> (AnyMessage list \<times> custom_fields option) list" where
  "completion_calls [] = []"
| "completion_calls (GetCompletion ms cf # t) = (ms, cf) # completion_calls t"
| "completion_calls (_ # t) = completion_calls t"

section \<open>Image to text through the store: \<^verbatim>\<open>task/image_to_text/task_dial_itt.py\<close>\<close>

text \<open>
  \<^verbatim>\<open>_put_image\<close>. \<^verbatim>\<open>Path(__file__).parent.parent.parent\<close> is the root of the project;
  \<^verbatim>\<open>response.get('url')\<close> is \<^verbatim>\<open>None\<close> when the store's answer has no such key.
\<close>

definition put_image :: "world \<Rightarrow> Attachment io" where
  "put_image w =
     (let file_name = ''dialx-banner.png'';
          image_path = project_root w @ ''/'' @ file_name;
          mime_type_png = ''image/png''
      in async_with_bucket_client w
           (io_bind (call (ReadFile image_path) (read_file w image_path))
              (\<lambda>image_bytes.
                 io_bind
                   (call (PutFile file_name mime_type_png image_bytes)
                      (put_file w file_name mime_type_png image_bytes))
                   (\<lambda>response.
                      ret \<lparr>title = file_name, url = map_of response ''url'',
                           type = mime_type_png\<rparr>))))"

definition check_mark :: string where
  "check_mark = [CHR 0xE2, CHR 0x9C, CHR 0x85]"

definition start_dial_itt :: "world \<Rightarrow> unit io" where
  "start_dial_itt w =
     io_then (emit (NewModelClient (DIAL_CHAT_COMPLETIONS_ENDPOINT w) ''gpt-4o'' (API_KEY w)))
       (io_bind (put_image w)
          (\<lambda>attachment.
             io_then
               (io_seq
                  [print (''\<newline>'' @ rule80),
                   print ''Uploaded Image Attachment:'',
                   print rule80,
                   print (''Title: '' @ title attachment),
                   print (''URL: '' @ str_opt (url attachment)),
                   print (''Type: '' @ type attachment),
                   print (rule80 @ ''\<newline>'')])
               (let message =
                      \<lparr>role = USER, content = Some ''What do you see on this picture?'',
                       custom_content = Some \<lparr>attachments = [attachment]\<rparr>\<rparr>
                in io_then (print ''Analyzing image...\<newline>'')
                     (io_bind
                        (call (GetCompletion [Plain message] None)
                           (get_completion w 0 [Plain message] None))
                        (\<lambda>response.
                           io_seq
                             [print (''\<newline>Response: '' @ str_opt (content response) @ ''\<newline>''),
                              print rule80,
                              print (check_mark @ '' Image analysis completed successfully!''),
                              print ''Note: This approach uploads the image to DIAL bucket and references it via attachment.'',
                              print ''The key benefit is that we can use Models from different vendors (OpenAI, Google, Anthropic).'',
                              print ''The DIAL Core adapts this attachment to Message content in appropriate format for each Model.'',
                              print ''TRY THIS APPROACH WITH DIFFERENT MODELS!'',
                              print (rule80 @ ''\<newline>'')])))))"

section \<open>Image to text inline: \<^verbatim>\<open>task/image_to_text/openai/task_openai_itt.py\<close>\<close>

text \<open>
  \<^verbatim>\<open>base64.b64encode\<close> of the standard library: three bytes become four characters of the
  standard alphabet, and a last group of one or two bytes is padded with \<^verbatim>\<open>=\<close>.
\<close>

definition b64_alphabet :: string where
  "b64_alphabet = ''ABCDEFGHIJKLMNOPQRSTUVWXYZabcdefghijklmnopqrstuvwxyz0123456789+/''"

definition b64_char :: "nat \<Rightarrow> char" where
  "b64_char i = b64_alphabet ! i"

fun b64encode :: "bytes \<Rightarrow> string" where
  "b64encode [] = []"
| "b64encode [a] =
     (let x = unat a
      in [b64_char (x div 4), b64_char (x mod 4 * 16), CHR ''='', CHR ''=''])"
| "b64encode [a, b] =
     (let x = unat a; y = unat b
      in [b64_char (x div 4), b64_char (x mod 4 * 16 + y div 16), b64_char (y mod 16 * 4),
          CHR ''=''])"
| "b64encode (a # b # c # rest) =
     (let x = unat a; y = unat b; z = unat c
      in [b64_char (x div 4), b64_char (x mod 4 * 16 + y div 16),
          b64_char (y mod 16 * 4 + z div 64), b64_char (z mod 64)] @ b64encode rest)"

text \<open>
  The decoder the standard defines (RFC 4648, section 4), as the reference for the encoder
  above; it is \<^verbatim>\<open>base64.b64decode(s, validate=True)\<close> made strict. Each character stands for
  its index in the alphabet; four characters give three bytes; a last group ending in one
  or two \<^verbatim>\<open>=\<close> gives two bytes or one, and its unused low bits must be zero. Any other
  character, padding elsewhere and a length that is not a multiple of four are refused.
\<close>

definition b64_val :: "char \<Rightarrow> nat option" where
  "b64_val c = map_of (zip b64_alphabet [0..<64]) c"

fun b64decode :: "string \<Rightarrow> bytes option" where
  "b64decode [] = Some []"
| "b64decode (c1 # c2 # c3 # c4 # rest) =
     (case b64_val c1 of None \<Rightarrow> None | Some p \<Rightarrow>
      case b64_val c2 of None \<Rightarrow> None | Some q \<Rightarrow>
        if rest = [] \<and> c4 = CHR ''='' \<and> c3 = CHR ''='' then
          (if q mod 16 = 0 then Some [of_nat (p * 4 + q div 16)] else None)
        else
          (case b64_val c3 of None \<Rightarrow> None | Some r \<Rightarrow>
             if rest = [] \<and> c4 = CHR ''='' then
               (if r mod 4 = 0
                then Some [of_nat (p * 4 + q div 16), of_nat (q mod 16 * 16 + r div 4)]
                else None)
             else
               (case b64_val c4 of None \<Rightarrow> None | Some s \<Rightarrow>
                case b64decode rest of None \<Rightarrow> None | Some bs \<Rightarrow>
                  Some (of_nat (p * 4 + q div 16) # of_nat (q mod 16 * 16 + r div 4) #
                        of_nat (r mod 4 * 64 + s) # bs))))"
| "b64decode _ = None"

text \<open>The test vectors of RFC 4648, section 10, are the prefixes of \<^verbatim>\<open>foobar\<close>.\<close>

definition foobar :: bytes where
  "foobar = [0x66, 0x6F, 0x6F, 0x62, 0x61, 0x72]"

text \<open>
  Modelled from the spec: the constructor of the multimodal message class
  \<^verbatim>\<open>ContentedMessage\<close> of \<^verbatim>\<open>task/image_to_text/openai/message.py\<close>, which is not among the
  sources. Section 4.1: constructing a multimodal message fails with
  \<^verbatim>\<open>InvalidMessageError\<close> if the content sequence is empty, or if a text part's text is
  empty, or if an image part's url is empty.
\<close>

fun empty_part :: "Content \<Rightarrow> bool" where
  "empty_part (TxtContent text) = (text = [])"
| "empty_part (ImgContent (ImgUrl u)) = (u = [])"

definition new_ContentedMessage :: "Role \<Rightarrow> Content list \<Rightarrow> error + ContentedMessage" where
  "new_ContentedMessage r cs =
     (if cs = [] \<or> list_ex empty_part cs then Inl InvalidMessageError
      else Inr \<lparr>cm_role = r, cm_content = cs\<rparr>)"

definition lift :: "error + 'a \<Rightarrow> 'a io" where
  "lift r = ([], r)"

definition start_openai_itt :: "world \<Rightarrow> unit io" where
  "start_openai_itt w =
     (let image_path = project_root w @ ''/'' @ ''dialx-banner.png'' in
      io_then
        (io_seq
           [emit (NewModelClient (DIAL_CHAT_COMPLETIONS_ENDPOINT w) ''gpt-4o'' (API_KEY w)),
            print (''\<newline>'' @ rule80),
            print ''Analyzing image with BASE64 encoded format (dialx-banner.png)'',
            print (rule80 @ ''\<newline>'')])
        (io_bind (call (ReadFile image_path) (read_file w image_path))
           (\<lambda>image_bytes.
              let base64_image = b64encode image_bytes in
              io_bind
                (lift (new_ContentedMessage USER
                   [TxtContent ''What's in this image? Please describe it in detail.'',
                    ImgContent (ImgUrl (''data:image/png;base64,'' @ base64_image))]))
                (\<lambda>base64_message.
                   io_bind
                     (call (GetCompletion [Contented base64_message] None)
                        (get_completion w 0 [Contented base64_message] None))
                     (\<lambda>response_base64.
                        io_then
                          (io_seq
                             [print (''\<newline>Response: '' @ str_opt (content response_base64) @ ''\<newline>''),
                              print (''\<newline>'' @ rule80),
                              print ''Analyzing the same image with data URI format (demonstrating URL syntax)'',
                              print (rule80 @ ''\<newline>'')])
                          (io_bind
                             (lift (new_ContentedMessage USER
                                [TxtContent ''Describe the color scheme and branding elements in this image.'',
                                 ImgContent (ImgUrl (''data:image/png;base64,'' @ base64_image))]))
                             (\<lambda>data_uri_message.
                                io_bind
                                  (call (GetCompletion [Contented data_uri_message] None)
                                     (get_completion w 1 [Contented data_uri_message] None))
                                  (\<lambda>response_data_uri.
                                     io_seq
                                       [print (''\<newline>Response: '' @ str_opt (content response_data_uri) @ ''\<newline>''),
                                        print (''\<newline>'' @ rule80),
                                        print (check_mark @ '' Both methods completed successfully!''),
                                        print ''Note: External URLs are not supported by DIAL proxy due to security restrictions.'',
                                        print ''Use base64 data URIs for reliable image analysis with DIAL Core.'',
                                        print (rule80 @ ''\<newline>'')]))))))))"

section \<open>Modules\<close>

text \<open>
  What a module does at its top level once its imports, classes and functions are
  defined: \<^verbatim>\<open>task_tti.py\<close> (line 131) and \<^verbatim>\<open>task_dial_itt.py\<close> (line 84) call \<^verbatim>\<open>start()\<close>,
  \<^verbatim>\<open>task_openai_itt.py\<close> (lines 67 and 68) calls it under \<^verbatim>\<open>if __name__ == "__main__"\<close>.
  Executing a module binds \<^verbatim>\<open>__name__\<close> to its dotted name when it is imported and to
  \<^verbatim>\<open>__main__\<close> when it is run as a script.
\<close>

datatype toplevel = CallStart | IfNameIsMain toplevel

fun exec_toplevel :: "string \<Rightarrow> unit io \<Rightarrow> toplevel \<Rightarrow> unit io" where
  "exec_toplevel name start CallStart = start"
| "exec_toplevel name start (IfNameIsMain body) =
     (if name = ''__main__'' then exec_toplevel name start body else ret ())"

definition task_tti_toplevel :: "toplevel list" where
  "task_tti_toplevel = [CallStart]"

definition task_dial_itt_toplevel :: "toplevel list" where
  "task_dial_itt_toplevel = [CallStart]"

definition task_openai_itt_toplevel :: "toplevel list" where
  "task_openai_itt_toplevel = [IfNameIsMain CallStart]"

definition exec_module :: "string \<Rightarrow> unit io \<Rightarrow> toplevel list \<Rightarrow> unit io" where
  "exec_module name start body = io_seq (map (exec_toplevel name start) body)"

definition import_task_tti :: "world \<Rightarrow> unit io" where
  "import_task_tti w = exec_module ''task.text_to_image.task_tti'' (start_tti w) task_tti_toplevel"

definition import_task_dial_itt :: "world \<Rightarrow> unit io" where
  "import_task_dial_itt w =
     exec_module ''task.image_to_text.task_dial_itt'' (start_dial_itt w) task_dial_itt_toplevel"

definition import_task_openai_itt :: "world \<Rightarrow> unit io" where
  "import_task_openai_itt w =
     exec_module ''task.image_to_text.openai.task_openai_itt'' (start_openai_itt w)
       task_openai_itt_toplevel"

definition run_task_openai_itt :: "world \<Rightarrow> unit io" where
  "run_task_openai_itt w = exec_module ''__main__'' (start_openai_itt w) task_openai_itt_toplevel"

section \<open>The attachment store\<close>

text \<open>
  Modelled from the spec: \<^verbatim>\<open>DialBucketClient.put_file\<close> and \<^verbatim>\<open>DialBucketClient.get_file\<close> of
  \<^verbatim>\<open>task/_utils/bucket_client.py\<close>, which is not among the sources. Section 4.2: upload
  stores the payload under a store-chosen namespace keyed by the caller's identity and
  answers with the url; download fetches the bytes at a url the store issued; either fails
  with its error on a transport failure, an authentication failure or a rejection by the
  store. The scripts read the url of an upload from the answer's \<^verbatim>\<open>url\<close> key.
\<close>

record store =
  reachable :: bool
  valid_keys :: "string list"
  objects :: "(string \<times> bytes) list"

definition store_url :: "string \<Rightarrow> string \<Rightarrow> string" where
  "store_url api_key name = ''files/'' @ api_key @ ''/'' @ name"

definition store_put_file ::
  "store \<Rightarrow> string \<Rightarrow> string \<Rightarrow> string \<Rightarrow> bytes \<Rightarrow> error + ((string \<times> string) list \<times> store)"
where
  "store_put_file s api_key name mime_type content' =
     (if \<not> reachable s then Inl (UploadError network_unreachable)
      else if api_key \<notin> set (valid_keys s) then Inl (UploadError auth_failure)
      else
        (let u = store_url api_key name
         in Inr ([(''name'', name), (''contentType'', mime_type), (''url'', u)],
                 s\<lparr>objects := (u, content') # objects s\<rparr>)))"

definition store_get_file :: "store \<Rightarrow> string \<Rightarrow> string \<Rightarrow> error + bytes" where
  "store_get_file s api_key u =
     (if \<not> reachable s then Inl (DownloadError network_unreachable)
      else if api_key \<notin> set (valid_keys s) then Inl (DownloadError auth_failure)
      else
        (case map_of (objects s) u of
           None \<Rightarrow> Inl (DownloadError (remote_rejected 404))
         | Some b \<Rightarrow> Inr b))"

section \<open>Observing a trace\<close>

definition sent_messages :: "event list \<Rightarrow> AnyMessage list" where
  "sent_messages t = concat (map fst (completion_calls t))"

fun file_writes :: "event list \<Rightarrow> (string \<times> bytes) list" where
  "file_writes [] = []"
| "file_writes (WriteFile name b # t) = (name, b) # file_writes t"
| "file_writes (_ # t) = file_writes t"

fun download_event :: "event \<Rightarrow> bool" where
  "download_event (NewBucketClient _ _) = True"
| "download_event SessionAcquired = True"
| "download_event SessionReleased = True"
| "download_event (GetFile _) = True"
| "download_event (WriteFile _ _) = True"
| "download_event _ = False"

text \<open>Whether a session is open after a trace, given whether one was open before it.\<close>

fun session_open :: "bool \<Rightarrow> event list \<Rightarrow> bool" where
  "session_open b [] = b"
| "session_open b (SessionAcquired # t) = session_open True t"
| "session_open b (SessionReleased # t) = session_open False t"
| "session_open b (_ # t) = session_open b t"

definition leaked :: "event list \<Rightarrow> bool" where
  "leaked t = session_open False t"

text \<open>Every call of the store happens while a session is open.\<close>

fun store_calls_in_session :: "bool \<Rightarrow> event list \<Rightarrow> bool" where
  "store_calls_in_session b [] = True"
| "store_calls_in_session b (SessionAcquired # t) = store_calls_in_session True t"
| "store_calls_in_session b (SessionReleased # t) = store_calls_in_session False t"
| "store_calls_in_session b (PutFile n m c # t) = (b \<and> store_calls_in_session b t)"
| "store_calls_in_session b (GetFile u # t) = (b \<and> store_calls_in_session b t)"
| "store_calls_in_session b (_ # t) = store_calls_in_session b t"

text \<open>The shape of a message's content: the two representations of the one field.\<close>

datatype shape = Absent | PlainString string | PartSequence "Content list"

fun content_shape :: "AnyMessage \<Rightarrow> shape" where
  "content_shape (Plain m) = (case content m of None \<Rightarrow> Absent | Some s \<Rightarrow> PlainString s)"
| "content_shape (Contented m) = PartSequence (cm_content m)"

fun content_invariant :: "AnyMessage \<Rightarrow> bool" where
  "content_invariant m =
     (case content_shape m of
        Absent \<Rightarrow> False
      | PlainString s \<Rightarrow> True
      | PartSequence parts \<Rightarrow> parts \<noteq> [])"

fun custom_content_of :: "AnyMessage \<Rightarrow> CustomContent option" where
  "custom_content_of (Plain m) = custom_content m"
| "custom_content_of (Contented m) = None"

text \<open>The attachments that \<^verbatim>\<open>_save_images\<close> downloads, each with its index in the list.\<close>

definition with_url :: "Attachment list \<Rightarrow> (nat \<times> Attachment) list" where
  "with_url atts = filter (\<lambda>(idx, a). truthy (url a)) (enumerate 0 atts)"

section \<open>Concrete worlds\<close>

text \<open>The fixtures of the tests: the fake image, the two generated attachments, a clock.\<close>

definition fake_image_bytes :: bytes where
  "fake_image_bytes =
     [0x89, 0x50, 0x4E, 0x47, 0x0D, 0x0A, 0x1A, 0x0A, 0x00, 0x00, 0x00, 0x0D, 0x49, 0x48, 0x44, 0x52]"

definition fake_data :: bytes where
  "fake_data = [0x66, 0x61, 0x6B, 0x65, 0x5F, 0x64, 0x61, 0x74, 0x61]"

definition mock_attachment1 :: Attachment where
  "mock_attachment1 =
     \<lparr>title = ''generated_image_1.png'',
      url = Some ''https://fake-bucket.example.com/files/image1.png'', type = ''image/png''\<rparr>"

definition mock_attachment2 :: Attachment where
  "mock_attachment2 =
     \<lparr>title = ''generated_image_2.png'',
      url = Some ''https://fake-bucket.example.com/files/image2.png'', type = ''image/png''\<rparr>"

definition pending_attachment :: Attachment where
  "pending_attachment = \<lparr>title = ''pending.png'', url = None, type = ''image/png''\<rparr>"

definition blank_attachment :: Attachment where
  "blank_attachment = \<lparr>title = ''blank.png'', url = Some [], type = ''image/png''\<rparr>"

definition mock_now :: datetime where
  "mock_now = \<lparr>year = 2024, month = 1, day = 15, hour = 10, minute = 30, second = 45\<rparr>"

definition mock_world :: "Message \<Rightarrow> world" where
  "mock_world response =
     \<lparr>API_KEY = ''key'', DIAL_URL = ''https://dial.example'',
      DIAL_CHAT_COMPLETIONS_ENDPOINT = ''https://dial.example/chat/completions'',
      project_root = ''/fake/path'',
      read_file = (\<lambda>path. Inr fake_data),
      write_file = (\<lambda>name b. None),
      now = (\<lambda>idx. mock_now),
      get_completion = (\<lambda>k ms cf. Inr response),
      aenter = None,
      aexit = None,
      put_file = (\<lambda>name mime b. Inr [(''url'', ''https://fake-bucket.example.com/files/'' @ name)]),
      get_file = (\<lambda>idx u. Inr fake_image_bytes)\<rparr>"

definition mock_response :: Message where
  "mock_response =
     \<lparr>role = ASSISTANT, content = None,
      custom_content = Some \<lparr>attachments = [mock_attachment1, mock_attachment2]\<rparr>\<rparr>"

definition mock_response_empty :: Message where
  "mock_response_empty =
     \<lparr>role = ASSISTANT, content = None, custom_content = Some \<lparr>attachments = []\<rparr>\<rparr>"

definition mock_store :: store where
  "mock_store = \<lparr>reachable = True, valid_keys = [''key''], objects = []\<rparr>"

text \<open>
  A written file \<open>(name, b)\<close> comes from the attachment \<open>a\<close> at index \<open>idx\<close>: it has the
  name the loop builds at that index, and its bytes are the answer of \<^verbatim>\<open>get_file\<close> for the
  attachment's url.
\<close>

definition saved_as :: "world \<Rightarrow> string \<times> bytes \<Rightarrow> nat \<times> Attachment \<Rightarrow> bool" where
  "saved_as w f ia =
     (case f of (name, b) \<Rightarrow> case ia of (idx, a) \<Rightarrow>
        name = image_file_name (strftime (now w idx)) idx \<and> truthy (url a) \<and>
        get_file w idx (the (url a)) = Inr b)"

text \<open>
  The download and the write of the attachment \<open>a\<close> at index \<open>idx\<close> both succeed.
\<close>

definition downloads_ok :: "world \<Rightarrow> nat \<times> Attachment \<Rightarrow> bool" where
  "downloads_ok w ia =
     (case ia of (idx, a) \<Rightarrow>
        (case get_file w idx (the (url a)) of
           Inl e \<Rightarrow> False
         | Inr b \<Rightarrow> write_file w (image_file_name (strftime (now w idx)) idx) b = None))"

text \<open>What one pass of the loop writes, and how it ends.\<close>

definition one_write :: "world \<Rightarrow> nat \<Rightarrow> Attachment \<Rightarrow> (string \<times> bytes) list" where
  "one_write w idx a =
     (if truthy (url a) then
        (case get_file w idx (the (url a)) of
           Inl e \<Rightarrow> []
         | Inr b \<Rightarrow>
             (case write_file w (image_file_name (strftime (now w idx)) idx) b of
                Some e \<Rightarrow> []
              | None \<Rightarrow> [(image_file_name (strftime (now w idx)) idx, b)]))
      else [])"

text \<open>The events of the session's lifetime.\<close>

fun session_event :: "event \<Rightarrow> bool" where
  "session_event SessionAcquired = True"
| "session_event SessionReleased = True"
| "session_event _ = False"

text \<open>A world whose store times out on every upload and download.\<close>

definition failing_world :: world where
  "failing_world =
     (mock_world mock_response)
       \<lparr>put_file := (\<lambda>name mime b. Inl (UploadError timeout)),
        get_file := (\<lambda>idx u. Inl (DownloadError timeout))\<rparr>"

section \<open>Traces of the combinators\<close>

lemma fst_io_bind:
  "fst (io_bind m f) = fst m @ (case snd m of Inl e \<Rightarrow> [] | Inr x \<Rightarrow> fst (f x))"
  by (cases m) (auto simp: io_bind_def split: sum.splits prod.splits)

lemma snd_io_bind:
  "snd (io_bind m f) = (case snd m of Inl e \<Rightarrow> Inl e | Inr x \<Rightarrow> snd (f x))"
  by (cases m) (auto simp: io_bind_def split: sum.splits prod.splits)

lemma fst_io_then:
  "fst (io_then m k) = fst m @ (case snd m of Inl e \<Rightarrow> [] | Inr x \<Rightarrow> fst k)"
  by (simp add: io_then_def fst_io_bind)

lemma snd_io_then:
  "snd (io_then m k) = (case snd m of Inl e \<Rightarrow> Inl e | Inr x \<Rightarrow> snd k)"
  by (simp add: io_then_def snd_io_bind)

lemma io_basic:
  "fst (ret x) = []" "snd (ret x) = Inr x"
  "fst (emit ev) = [ev]" "snd (emit ev) = Inr ()"
  "fst (print s) = [Print s]" "snd (print s) = Inr ()"
  "fst (call ev r) = [ev]" "snd (call ev r) = r"
  "fst (lift r) = []" "snd (lift r) = r"
  by (simp_all add: ret_def emit_def print_def call_def lift_def)

lemmas io_simps = fst_io_bind snd_io_bind fst_io_then snd_io_then io_basic

section \<open>The requests of the text-to-image script\<close>

lemma completion_calls_append:
  "completion_calls (t @ t') = completion_calls t @ completion_calls t'"
  by (induction t rule: completion_calls.induct) auto

lemma completion_calls_save_image: "completion_calls (fst (save_image w n idx a)) = []"
  by (simp add: save_image_def io_simps Let_def completion_calls_append
      split: sum.splits option.splits)

lemma completion_calls_save_images_loop:
  "completion_calls (fst (save_images_loop w n idx atts)) = []"
  by (induction atts arbitrary: idx)
     (simp_all add: io_simps completion_calls_append completion_calls_save_image
        split: sum.splits)

lemma completion_calls_save_images: "completion_calls (fst (save_images w atts)) = []"
  by (simp add: save_images_def async_with_bucket_client_def completion_calls_append
      completion_calls_save_images_loop split: option.splits prod.splits)
     (metis completion_calls_save_images_loop fst_conv)

lemma completion_calls_print_attachments:
  "completion_calls (fst (print_attachments idx atts)) = []"
  by (induction atts arbitrary: idx)
     (simp_all add: io_simps completion_calls_append split: sum.splits)

lemma start_tti_calls:
  "completion_calls (fst (start_tti w)) =
     [([Plain \<lparr>role = USER, content = Some ''Sunny day on Bali'', custom_content = None\<rparr>],
       Some [(''size'', ''1024x1024''), (''quality'', ''hd''), (''style'', ''vivid'')])]"
  by (simp add: start_tti_def Let_def io_simps completion_calls_append
      completion_calls_save_images completion_calls_print_attachments
      Size_square_def Quality_hd_def Style_vivid_def subscript_def
      split: sum.splits)

text \<open>
  Claim C1. Whatever the gateway answers, the text-to-image script sends it exactly one
  request, and the custom fields of that request are the mapping the script built: the
  keys \<^verbatim>\<open>size\<close>, \<^verbatim>\<open>quality\<close> and \<^verbatim>\<open>style\<close>, in this order, with the values \<^verbatim>\<open>1024x1024\<close>,
  \<^verbatim>\<open>hd\<close> and \<^verbatim>\<open>vivid\<close>; no key is renamed, dropped or moved.
\<close>

theorem tti_custom_fields_verbatim:
  "completion_calls (fst (start_tti w)) =
     [([Plain \<lparr>role = USER, content = Some ''Sunny day on Bali'', custom_content = None\<rparr>],
       Some [(''size'', ''1024x1024''), (''quality'', ''hd''), (''style'', ''vivid'')])]"
  by (rule start_tti_calls)

section \<open>Decimal numbers and file names\<close>

lemma digit_char_of_char: "d < 10 \<Longrightarrow> (of_char (digit_char d) :: nat) = 48 + d"
  by (simp add: digit_char_def)

lemma digit_char_inj: "a < 10 \<Longrightarrow> b < 10 \<Longrightarrow> digit_char a = digit_char b \<Longrightarrow> a = b"
  by (metis digit_char_of_char add_left_cancel)

lemma digit_char_not_underscore: "d < 10 \<Longrightarrow> digit_char d \<noteq> CHR ''_''"
proof
  assume d: "d < 10" and e: "digit_char d = CHR ''_''"
  have "(of_char (digit_char d) :: nat) = of_char CHR ''_''" using e by simp
  then show False using d by (simp add: digit_char_of_char)
qed

lemma str_nat_not_empty: "str_nat n \<noteq> []"
  by (subst str_nat.simps) simp

lemma str_nat_no_underscore: "CHR ''_'' \<notin> set (str_nat n)"
proof (induction n rule: str_nat.induct)
  case (1 n)
  show ?case
  proof (cases "n < 10")
    case True
    then show ?thesis
      using digit_char_not_underscore [of n] by (subst str_nat.simps) auto
  next
    case False
    then show ?thesis
      using 1 digit_char_not_underscore [of "n mod 10"] by (subst str_nat.simps) auto
  qed
qed

lemma str_nat_inj: "str_nat a = str_nat b \<Longrightarrow> a = b"
proof (induction a arbitrary: b rule: str_nat.induct)
  case (1 a)
  show ?case
  proof (cases "a < 10")
    case True
    note a = this
    show ?thesis
    proof (cases "b < 10")
      case True
      then show ?thesis
        using a "1.prems" digit_char_inj [of a b]
        by (simp add: str_nat.simps [of a] str_nat.simps [of b])
    next
      case False
      then show ?thesis
        using a "1.prems" str_nat_not_empty [of "b div 10"]
        by (simp add: str_nat.simps [of a] str_nat.simps [of b])
    qed
  next
    case False
    note a = this
    show ?thesis
    proof (cases "b < 10")
      case True
      then show ?thesis
        using a "1.prems" str_nat_not_empty [of "a div 10"]
        by (simp add: str_nat.simps [of a] str_nat.simps [of b])
    next
      case False
      then have "str_nat (a div 10) = str_nat (b div 10)"
        and d: "digit_char (a mod 10) = digit_char (b mod 10)"
        using a "1.prems" by (simp_all add: str_nat.simps [of a] str_nat.simps [of b])
      then have "a div 10 = b div 10" using "1.IH" a by blast
      moreover have "a mod 10 = b mod 10" using d digit_char_inj by simp
      ultimately show ?thesis by (metis div_mult_mod_eq)
    qed
  qed
qed

lemma suffix_after_last:
  assumes "xs @ c # ys = xs' @ c # ys'" and "c \<notin> set ys" and "c \<notin> set ys'"
  shows "ys = ys'"
proof -
  have "rev ys @ c # rev xs = rev ys' @ c # rev xs'"
    using assms(1) by (metis rev.simps(2) rev_append append.assoc append_Cons append_Nil)
  moreover have "takeWhile (\<lambda>x. x \<noteq> c) (rev ys @ c # rev xs) = rev ys"
    using assms(2) by (subst takeWhile_append2) auto
  moreover have "takeWhile (\<lambda>x. x \<noteq> c) (rev ys' @ c # rev xs') = rev ys'"
    using assms(3) by (subst takeWhile_append2) auto
  ultimately have "rev ys = rev ys'" by simp
  then show ?thesis by simp
qed

lemma image_file_name_inj:
  assumes "image_file_name ts i = image_file_name ts' j"
  shows "i = j"
proof -
  have "ts @ CHR ''_'' # (str_nat (i + 1) @ ''.png'') = ts' @ CHR ''_'' # (str_nat (j + 1) @ ''.png'')"
    using assms by (simp add: image_file_name_def)
  then have "str_nat (i + 1) @ ''.png'' = str_nat (j + 1) @ ''.png''"
    by (rule suffix_after_last) (simp_all add: str_nat_no_underscore)
  then have "str_nat (i + 1) = str_nat (j + 1)" by simp
  then show ?thesis using str_nat_inj by fastforce
qed

section \<open>The session of the bucket client\<close>

lemma snd_async_with:
  "snd (async_with_bucket_client w body) =
     (case aenter w of Some e \<Rightarrow> Inl e
      | None \<Rightarrow> (case aexit w of Some e \<Rightarrow> Inl e | None \<Rightarrow> snd body))"
  by (simp add: async_with_bucket_client_def split: option.splits prod.splits)

lemma fst_async_with:
  "fst (async_with_bucket_client w body) =
     (case aenter w of Some e \<Rightarrow> [NewBucketClient (API_KEY w) (DIAL_URL w)]
      | None \<Rightarrow> [NewBucketClient (API_KEY w) (DIAL_URL w), SessionAcquired] @ fst body @ [SessionReleased])"
  by (simp add: async_with_bucket_client_def split: option.splits prod.splits)

lemma session_open_append: "session_open b (t @ t') = session_open (session_open b t) t'"
  by (induction b t rule: session_open.induct) auto

lemma session_open_free: "list_all (\<lambda>ev. \<not> session_event ev) t \<Longrightarrow> session_open b t = b"
  by (induction b t rule: session_open.induct) auto

lemma store_calls_append:
  "store_calls_in_session b (t @ t') =
     (store_calls_in_session b t \<and> store_calls_in_session (session_open b t) t')"
  by (induction b t rule: store_calls_in_session.induct) auto

lemma store_calls_free:
  "list_all (\<lambda>ev. \<not> session_event ev) t \<Longrightarrow> store_calls_in_session True t"
  by (induction t) (auto elim: session_event.elims(3))

lemma async_with_scoped:
  assumes "list_all (\<lambda>ev. \<not> session_event ev) (fst body)"
  shows "\<not> leaked (fst (async_with_bucket_client w body))"
    and "store_calls_in_session False (fst (async_with_bucket_client w body))"
    and "aenter w = None \<Longrightarrow> SessionAcquired \<in> set (fst (async_with_bucket_client w body))"
    and "aenter w = None \<Longrightarrow> last (fst (async_with_bucket_client w body)) = SessionReleased"
    and "aenter w \<noteq> None \<Longrightarrow> SessionAcquired \<notin> set (fst (async_with_bucket_client w body))"
  using assms
  by (auto simp: fst_async_with leaked_def session_open_append session_open_free
      store_calls_append store_calls_free split: option.splits)

lemma save_image_free: "list_all (\<lambda>ev. \<not> session_event ev) (fst (save_image w n idx a))"
  by (simp add: save_image_def Let_def io_simps split: sum.splits option.splits)

lemma save_images_loop_free:
  "list_all (\<lambda>ev. \<not> session_event ev) (fst (save_images_loop w n idx atts))"
  by (induction atts arbitrary: idx) (simp_all add: io_simps save_image_free split: sum.splits)

lemma put_image_body_free:
  "list_all (\<lambda>ev. \<not> session_event ev)
     (fst (io_bind (call (ReadFile p) (read_file w p))
        (\<lambda>image_bytes.
           io_bind (call (PutFile n m image_bytes) (put_file w n m image_bytes))
             (\<lambda>response. ret \<lparr>title = n, url = map_of response ''url'', type = m\<rparr>))))"
  by (simp add: io_simps split: sum.splits)

text \<open>
  Claim C6. On every path of the upload flow and of the download flow the session that
  \<^verbatim>\<open>async with\<close> acquired is released: no trace leaves a session open, every call of the
  store lies between the acquisition and the release, and when a session was acquired
  its release is the last thing the function does, whether the calls inside succeeded or
  raised. When the acquisition itself raises there is no session.
\<close>

theorem session_always_released:
  "\<not> leaked (fst (put_image w)) \<and> \<not> leaked (fst (save_images w atts)) \<and>
   store_calls_in_session False (fst (put_image w)) \<and>
   store_calls_in_session False (fst (save_images w atts)) \<and>
   (aenter w = None \<longrightarrow>
      SessionAcquired \<in> set (fst (put_image w)) \<and> last (fst (put_image w)) = SessionReleased \<and>
      SessionAcquired \<in> set (fst (save_images w atts)) \<and>
      last (fst (save_images w atts)) = SessionReleased) \<and>
   (aenter w \<noteq> None \<longrightarrow>
      SessionAcquired \<notin> set (fst (put_image w)) \<and>
      SessionAcquired \<notin> set (fst (save_images w atts)))"
proof -
  note up =
    async_with_scoped
      [OF put_image_body_free
            [of "project_root w @ ''/'' @ ''dialx-banner.png''" w "''dialx-banner.png''"
               "''image/png''"],
       of w, folded put_image_def [unfolded Let_def]]
  note down =
    async_with_scoped
      [OF save_images_loop_free [of w "length atts" 0 atts], of w, folded save_images_def]
  show ?thesis
    using up down by blast
qed

theorem session_always_released_witness:
  "snd (put_image failing_world) = Inl (UploadError timeout) \<and>
   snd (save_images failing_world [mock_attachment1]) = Inl (DownloadError timeout) \<and>
   \<not> leaked (fst (put_image failing_world)) \<and>
   \<not> leaked (fst (save_images failing_world [mock_attachment1])) \<and>
   SessionAcquired \<in> set (fst (put_image failing_world)) \<and>
   last (fst (put_image failing_world)) = SessionReleased \<and>
   SessionAcquired \<in> set (fst (save_images failing_world [mock_attachment1])) \<and>
   last (fst (save_images failing_world [mock_attachment1])) = SessionReleased"
proof -
  have a: "aenter failing_world = None"
    by (simp add: failing_world_def mock_world_def)
  have p: "snd (put_image failing_world) = Inl (UploadError timeout)"
    by (simp add: put_image_def Let_def snd_async_with io_simps failing_world_def mock_world_def)
  have s: "snd (save_images failing_world [mock_attachment1]) = Inl (DownloadError timeout)"
    by (simp add: save_images_def save_image_def Let_def snd_async_with io_simps
        failing_world_def mock_world_def mock_attachment1_def truthy_def)
  show ?thesis
    using session_always_released [of failing_world "[mock_attachment1]"] a p s by simp
qed

section \<open>The upload flow\<close>



section \<open>A response without attachments\<close>

lemma has_attachments_iff:
  "has_attachments r \<longleftrightarrow>
     \<not> (custom_content r = None \<or> map_option attachments (custom_content r) = Some [])"
  by (auto simp: has_attachments_def split: option.splits)

text \<open>
  Claim C4. When the gateway's response has no custom content, or an empty attachment
  list, the text-to-image script ends without raising; the last thing it prints is the
  warning; it constructs no bucket client, downloads nothing and writes no file; and it
  prints the response's content whether or not that is present.
\<close>

theorem tti_no_attachments:
  assumes "get_completion w 0
             [Plain \<lparr>role = USER, content = Some ''Sunny day on Bali'', custom_content = None\<rparr>]
             (Some [(''size'', ''1024x1024''), (''quality'', ''hd''), (''style'', ''vivid'')])
           = Inr response"
    and "custom_content response = None \<or>
         map_option attachments (custom_content response) = Some []"
  shows "snd (start_tti w) = Inr () \<and>
         last (fst (start_tti w)) =
           Print ''\<newline>Warning: No images were generated in the response.\<newline>'' \<and>
         filter download_event (fst (start_tti w)) = [] \<and>
         Print (''\<newline>Response content: '' @ str_opt (content response) @ ''\<newline>'')
           \<in> set (fst (start_tti w))"
proof -
  have no: "\<not> has_attachments response"
    using assms(2) by (simp add: has_attachments_iff)
  show ?thesis
    using assms(1) no
    by (simp add: start_tti_def Let_def io_simps Size_square_def Quality_hd_def Style_vivid_def)
qed

theorem tti_no_attachments_witness:
  "snd (start_tti (mock_world mock_response_empty)) = Inr () \<and>
   last (fst (start_tti (mock_world mock_response_empty))) =
     Print ''\<newline>Warning: No images were generated in the response.\<newline>'' \<and>
   filter download_event (fst (start_tti (mock_world mock_response_empty))) = [] \<and>
   Print ''\<newline>Response content: None\<newline>'' \<in> set (fst (start_tti (mock_world mock_response_empty)))"
proof -
  have h1: "get_completion (mock_world mock_response_empty) 0
             [Plain \<lparr>role = USER, content = Some ''Sunny day on Bali'', custom_content = None\<rparr>]
             (Some [(''size'', ''1024x1024''), (''quality'', ''hd''), (''style'', ''vivid'')])
           = Inr mock_response_empty"
    by (simp add: mock_world_def)
  have h2: "custom_content mock_response_empty = None \<or>
         map_option attachments (custom_content mock_response_empty) = Some []"
    by (simp add: mock_response_empty_def)
  have c: "str_opt (content mock_response_empty) = ''None''"
    by (simp add: mock_response_empty_def str_opt_def)
  show ?thesis
    using tti_no_attachments [OF h1 h2] by (simp add: c)
qed

section \<open>The files of the download flow\<close>

lemma file_writes_append: "file_writes (t @ t') = file_writes t @ file_writes t'"
  by (induction t rule: file_writes.induct) auto

lemma file_writes_save_image: "file_writes (fst (save_image w n idx a)) = one_write w idx a"
  by (simp add: save_image_def one_write_def io_simps Let_def file_writes_append
      split: sum.splits option.splits)

lemma save_image_ok_writes:
  "snd (save_image w n idx a) = Inr () \<Longrightarrow> truthy (url a) \<Longrightarrow> length (one_write w idx a) = 1"
  by (simp add: save_image_def one_write_def io_simps Let_def
      split: sum.splits option.splits)

lemma save_image_failed_writes:
  "snd (save_image w n idx a) = Inl e \<Longrightarrow> one_write w idx a = []"
  by (auto simp add: save_image_def one_write_def io_simps Let_def
      split: sum.splits option.splits if_splits)

lemma save_image_no_url: "\<not> truthy (url a) \<Longrightarrow> save_image w n idx a = ret ()"
  by (simp add: save_image_def)

lemma one_write_cases:
  "one_write w idx a = [] \<or> (truthy (url a) \<and> (\<exists>f. one_write w idx a = [f] \<and> saved_as w f (idx, a)))"
  by (auto simp: one_write_def saved_as_def split: sum.splits option.splits if_splits)

lemma one_write_saved_as: "f \<in> set (one_write w idx a) \<Longrightarrow> saved_as w f (idx, a)"
  using one_write_cases [of w idx a] by auto

lemma one_write_name:
  "f \<in> set (one_write w idx a) \<Longrightarrow> fst f = image_file_name (strftime (now w idx)) idx"
  using one_write_saved_as [of f w idx a] by (auto simp: saved_as_def)

lemma loop_writes:
  "list_all2 (saved_as w) (file_writes (fst (save_images_loop w n idx atts)))
     (take (length (file_writes (fst (save_images_loop w n idx atts))))
        (filter (\<lambda>(i, a). truthy (url a)) (enumerate idx atts)))"
proof (induction atts arbitrary: idx)
  case Nil
  show ?case by (simp add: io_simps)
next
  case (Cons a rest)
  show ?case
  proof (cases "snd (save_image w n idx a)")
    case (Inl e)
    then show ?thesis
      by (simp add: io_simps file_writes_append file_writes_save_image save_image_failed_writes)
  next
    case (Inr u)
    show ?thesis
    proof (cases "truthy (url a)")
      case False
      then show ?thesis
        using Cons [of "Suc idx"] by (simp add: save_image_no_url io_simps)
    next
      case True
      then obtain f where f: "one_write w idx a = [f]" "saved_as w f (idx, a)"
        using one_write_cases [of w idx a] save_image_ok_writes [of w n idx a] Inr by auto
      then show ?thesis
        using Cons [of "Suc idx"] Inr True
        by (simp add: io_simps file_writes_append file_writes_save_image)
    qed
  qed
qed

lemma loop_ok_length:
  "snd (save_images_loop w n idx atts) = Inr () \<Longrightarrow>
   length (file_writes (fst (save_images_loop w n idx atts))) =
   length (filter (\<lambda>(i, a). truthy (url a)) (enumerate idx atts))"
proof (induction atts arbitrary: idx)
  case Nil
  show ?case by (simp add: io_simps)
next
  case (Cons a rest)
  from Cons.prems have ok: "snd (save_image w n idx a) = Inr ()"
    and rest: "snd (save_images_loop w n (Suc idx) rest) = Inr ()"
    by (auto simp: io_simps split: sum.splits)
  show ?case
  proof (cases "truthy (url a)")
    case False
    then show ?thesis
      using Cons.IH [OF rest] by (simp add: save_image_no_url io_simps)
  next
    case True
    then show ?thesis
      using Cons.IH [OF rest] ok save_image_ok_writes [OF ok True]
      by (simp add: io_simps file_writes_append file_writes_save_image)
  qed
qed

lemma loop_names:
  "f \<in> set (file_writes (fst (save_images_loop w n idx atts))) \<Longrightarrow>
   \<exists>ts j. idx \<le> j \<and> fst f = image_file_name ts j"
proof (induction atts arbitrary: idx)
  case Nil
  then show ?case by (simp add: io_simps)
next
  case (Cons a rest)
  from Cons.prems consider
    "f \<in> set (one_write w idx a)" | "f \<in> set (file_writes (fst (save_images_loop w n (Suc idx) rest)))"
    by (auto simp: io_simps file_writes_append file_writes_save_image split: sum.splits)
  then show ?case
  proof cases
    case 1
    then have "fst f = image_file_name (strftime (now w idx)) idx"
      by (rule one_write_name)
    then show ?thesis by blast
  next
    case 2
    then obtain ts j where "Suc idx \<le> j" "fst f = image_file_name ts j"
      using Cons.IH by blast
    then show ?thesis by (metis Suc_leD)
  qed
qed

lemma loop_distinct:
  "distinct (map fst (file_writes (fst (save_images_loop w n idx atts))))"
proof (induction atts arbitrary: idx)
  case Nil
  show ?case by (simp add: io_simps)
next
  case (Cons a rest)
  have tail: "distinct (map fst (file_writes (fst (save_images_loop w n (Suc idx) rest))))"
    by (rule Cons.IH)
  have head: "distinct (map fst (one_write w idx a))"
    by (simp add: one_write_def split: sum.splits option.splits)
  have apart: "fst f \<noteq> fst g"
    if "f \<in> set (one_write w idx a)"
      and "g \<in> set (file_writes (fst (save_images_loop w n (Suc idx) rest)))" for f g
  proof -
    from that(1) have "fst f = image_file_name (strftime (now w idx)) idx"
      by (rule one_write_name)
    moreover from that(2) obtain ts j where "Suc idx \<le> j" "fst g = image_file_name ts j"
      using loop_names by blast
    ultimately show ?thesis using image_file_name_inj by fastforce
  qed
  show ?case
    using tail head apart
    by (auto simp: io_simps file_writes_append file_writes_save_image split: sum.splits)
qed

lemma loop_no_url:
  "list_all (\<lambda>a. \<not> truthy (url a)) atts \<Longrightarrow> save_images_loop w n idx atts = ret ()"
  by (induction atts arbitrary: idx) (simp_all add: save_image_no_url io_then_def io_bind_def ret_def)

lemma file_writes_save_images:
  "file_writes (fst (save_images w atts)) =
     (case aenter w of Some e \<Rightarrow> [] | None \<Rightarrow> file_writes (fst (save_images_loop w (length atts) 0 atts)))"
  by (simp add: save_images_def async_with_bucket_client_def file_writes_append
      split: option.splits prod.splits)

lemma snd_save_images:
  "snd (save_images w atts) =
     (case aenter w of Some e \<Rightarrow> Inl e
      | None \<Rightarrow> (case aexit w of Some e \<Rightarrow> Inl e | None \<Rightarrow> snd (save_images_loop w (length atts) 0 atts)))"
  by (simp add: save_images_def async_with_bucket_client_def
      split: option.splits prod.splits)

lemma save_image_ok_iff:
  "snd (save_image w n idx a) = Inr () \<longleftrightarrow> (truthy (url a) \<longrightarrow> downloads_ok w (idx, a))"
  by (auto simp: save_image_def downloads_ok_def Let_def io_simps split: sum.splits option.splits)

lemma loop_ok_iff:
  "snd (save_images_loop w n idx atts) = Inr () \<longleftrightarrow>
     list_all (downloads_ok w) (filter (\<lambda>(i, a). truthy (url a)) (enumerate idx atts))"
proof (induction atts arbitrary: idx)
  case Nil
  show ?case by (simp add: io_simps)
next
  case (Cons a rest)
  have "snd (save_images_loop w n idx (a # rest)) = Inr () \<longleftrightarrow>
          snd (save_image w n idx a) = Inr () \<and> snd (save_images_loop w n (Suc idx) rest) = Inr ()"
    by (auto simp: io_simps split: sum.splits)
  then show ?case
    using Cons [of "Suc idx"] by (simp add: save_image_ok_iff)
qed

text \<open>
  Claim C9. The files \<^verbatim>\<open>_save_images\<close> writes are, in order, those of the first attachments
  that have a non-empty url: each has the bytes \<^verbatim>\<open>get_file\<close> returned for its attachment's
  url and the name built from the attachment's index; the names are pairwise distinct; if
  the flow ends without raising, every attachment with a url has its file. An attachment
  without a url is passed over at any index, with no event and no error, so the flow ends
  without raising exactly when the session opens and closes and the download and the write
  succeed for every attachment that has a url, whatever url-less attachments lie between
  them; a list of attachments without urls gives no file and no error.
\<close>

theorem save_images_files:
  "list_all2 (saved_as w) (file_writes (fst (save_images w atts)))
     (take (length (file_writes (fst (save_images w atts)))) (with_url atts))
   \<and> distinct (map fst (file_writes (fst (save_images w atts))))
   \<and> (snd (save_images w atts) = Inr () \<longrightarrow>
        length (file_writes (fst (save_images w atts))) = length (with_url atts))
   \<and> (list_all (\<lambda>a. \<not> truthy (url a)) atts \<and> aenter w = None \<and> aexit w = None \<longrightarrow>
        snd (save_images w atts) = Inr () \<and> file_writes (fst (save_images w atts)) = [])
   \<and> (snd (save_images w atts) = Inr () \<longleftrightarrow>
        aenter w = None \<and> aexit w = None \<and> list_all (downloads_ok w) (with_url atts))
   \<and> (\<forall>a \<in> set atts. \<not> truthy (url a) \<longrightarrow> (\<forall>n idx. save_image w n idx a = ([], Inr ())))"
proof (intro conjI impI)
  show "list_all2 (saved_as w) (file_writes (fst (save_images w atts)))
     (take (length (file_writes (fst (save_images w atts)))) (with_url atts))"
    using loop_writes [of w "length atts" 0 atts]
    by (simp add: file_writes_save_images with_url_def split: option.splits)
  show "distinct (map fst (file_writes (fst (save_images w atts))))"
    using loop_distinct [of w "length atts" 0 atts]
    by (simp add: file_writes_save_images split: option.splits)
  show "length (file_writes (fst (save_images w atts))) = length (with_url atts)"
    if "snd (save_images w atts) = Inr ()"
    using that loop_ok_length [of w "length atts" 0 atts]
    by (simp add: file_writes_save_images snd_save_images with_url_def split: option.splits)
  show "snd (save_images w atts) = Inr ()"
    if "list_all (\<lambda>a. \<not> truthy (url a)) atts \<and> aenter w = None \<and> aexit w = None"
    using that loop_no_url [of atts w "length atts" 0]
    by (simp add: snd_save_images io_basic)
  show "file_writes (fst (save_images w atts)) = []"
    if "list_all (\<lambda>a. \<not> truthy (url a)) atts \<and> aenter w = None \<and> aexit w = None"
    using that loop_no_url [of atts w "length atts" 0]
    by (simp add: file_writes_save_images io_basic)
  show "snd (save_images w atts) = Inr () \<longleftrightarrow>
        aenter w = None \<and> aexit w = None \<and> list_all (downloads_ok w) (with_url atts)"
    using loop_ok_iff [of w "length atts" 0 atts]
    by (simp add: snd_save_images with_url_def split: option.splits)
  show "\<forall>a \<in> set atts. \<not> truthy (url a) \<longrightarrow> (\<forall>n idx. save_image w n idx a = ([], Inr ()))"
    by (simp add: save_image_no_url ret_def)
qed

lemma mock_timestamp: "strftime mock_now = ''20240115_103045''"
  by code_simp

lemma mock_file_names:
  "image_file_name ''20240115_103045'' 0 = ''generated_image_20240115_103045_1.png''"
  "image_file_name ''20240115_103045'' 2 = ''generated_image_20240115_103045_3.png''"
  by code_simp+

lemma mock_file_names_loop:
  "image_file_name ''20240115_103045'' (Suc (Suc 0)) = ''generated_image_20240115_103045_3.png''"
  "image_file_name ''20240115_103045'' (Suc (Suc (Suc (Suc 0)))) =
     ''generated_image_20240115_103045_5.png''"
  by code_simp+

theorem save_images_files_witness:
  "file_writes (fst (save_images (mock_world mock_response)
       [mock_attachment1, pending_attachment, mock_attachment2, blank_attachment,
        mock_attachment1])) =
     [(''generated_image_20240115_103045_1.png'', fake_image_bytes),
      (''generated_image_20240115_103045_3.png'', fake_image_bytes),
      (''generated_image_20240115_103045_5.png'', fake_image_bytes)] \<and>
   with_url [mock_attachment1, pending_attachment, mock_attachment2, blank_attachment,
        mock_attachment1] =
     [(0, mock_attachment1), (2, mock_attachment2), (4, mock_attachment1)] \<and>
   snd (save_images (mock_world mock_response)
       [mock_attachment1, pending_attachment, mock_attachment2, blank_attachment,
        mock_attachment1]) = Inr () \<and>
   list_all (downloads_ok (mock_world mock_response))
     [(0, mock_attachment1), (2, mock_attachment2), (4, mock_attachment1)] \<and>
   save_image (mock_world mock_response) 5 1 pending_attachment = ([], Inr ()) \<and>
   save_image (mock_world mock_response) 5 3 blank_attachment = ([], Inr ()) \<and>
   list_all2 (saved_as (mock_world mock_response))
     [(''generated_image_20240115_103045_1.png'', fake_image_bytes),
      (''generated_image_20240115_103045_3.png'', fake_image_bytes),
      (''generated_image_20240115_103045_5.png'', fake_image_bytes)]
     [(0, mock_attachment1), (2, mock_attachment2), (4, mock_attachment1)] \<and>
   distinct [''generated_image_20240115_103045_1.png'', ''generated_image_20240115_103045_3.png'',
     ''generated_image_20240115_103045_5.png''] \<and>
   snd (save_images failing_world
       [mock_attachment1, pending_attachment, mock_attachment2, blank_attachment,
        mock_attachment1]) \<noteq> Inr ()"
proof -
  let ?w = "mock_world mock_response"
  let ?atts = "[mock_attachment1, pending_attachment, mock_attachment2, blank_attachment,
        mock_attachment1]"
  have t: "truthy (url mock_attachment1)" "\<not> truthy (url pending_attachment)"
    "truthy (url mock_attachment2)" "\<not> truthy (url blank_attachment)"
    by (simp_all add: truthy_def mock_attachment1_def mock_attachment2_def
        pending_attachment_def blank_attachment_def)
  have w: "now ?w = (\<lambda>idx. mock_now)" "get_file ?w = (\<lambda>idx u. Inr fake_image_bytes)"
    "write_file ?w = (\<lambda>name b. None)" "aenter ?w = None" "aexit ?w = None"
    by (simp_all add: mock_world_def)
  have one: "snd (save_image ?w n idx a) = Inr ()" for n idx a
    by (simp add: save_image_def Let_def io_simps w)
  have fw: "file_writes (fst (save_images ?w ?atts)) =
     [(''generated_image_20240115_103045_1.png'', fake_image_bytes),
      (''generated_image_20240115_103045_3.png'', fake_image_bytes),
      (''generated_image_20240115_103045_5.png'', fake_image_bytes)]"
    by (simp add: file_writes_save_images io_simps file_writes_append file_writes_save_image
        one_write_def one t w mock_timestamp mock_file_names mock_file_names_loop)
  have wu: "with_url ?atts = [(0, mock_attachment1), (2, mock_attachment2), (4, mock_attachment1)]"
    by (simp add: with_url_def enumerate_eq_zip t upt_rec)
  have f: "aenter failing_world = None" "aexit failing_world = None"
    "\<not> downloads_ok failing_world (0, mock_attachment1)"
    by (simp_all add: failing_world_def mock_world_def downloads_ok_def)
  have ok: "snd (save_images ?w ?atts) = Inr ()"
    by (simp add: snd_save_images io_simps one w)
  have dk: "downloads_ok ?w ia" for ia
    by (cases ia) (simp add: downloads_ok_def w)
  have bad: "snd (save_images failing_world ?atts) \<noteq> Inr ()"
    using save_images_files [of failing_world ?atts] wu f by simp
  show ?thesis
    using save_images_files [of ?w ?atts] fw wu t ok dk bad by simp
qed

section \<open>The inline image\<close>

text \<open>
  The encoding is four characters for every three bytes, rounded up, all of them from the
  standard alphabet or the padding character.
\<close>

lemma b64encode_length: "length (b64encode bs) = 4 * ((length bs + 2) div 3)"
proof (induction bs rule: b64encode.induct)
  case (4 a b c rest)
  then have "length (b64encode rest) = 4 * ((length rest + 2) div 3)"
    by simp
  moreover have "(length rest + 5) div 3 = (length rest + 2) div 3 + 1"
    by arith
  ultimately show ?case
    by (simp add: Let_def add.commute)
qed (simp_all add: Let_def)

lemma b64_char_alphabet: "i < 64 \<Longrightarrow> b64_char i \<in> set b64_alphabet"
  unfolding b64_char_def by (rule nth_mem) (simp add: b64_alphabet_def)

lemma unat_byte: "unat (a :: 8 word) < 256"
  using unsigned_less [of a, where 'a = nat] by simp

lemma b64encode_chars: "set (b64encode bs) \<subseteq> set b64_alphabet \<union> {CHR ''=''}"
proof (induction bs rule: b64encode.induct)
  case 1
  show ?case by simp
next
  case (2 a)
  have "unat a div 4 < 64" "unat a mod 4 * 16 < 64"
    using unat_byte [of a] by simp_all
  then show ?case by (simp add: Let_def b64_char_alphabet)
next
  case (3 a b)
  have "unat a div 4 < 64" "unat a mod 4 * 16 + unat b div 16 < 64" "unat b mod 16 * 4 < 64"
    using unat_byte [of a] unat_byte [of b] by simp_all
  then show ?case by (simp add: Let_def b64_char_alphabet)
next
  case (4 a b c rest)
  have "unat a div 4 < 64" "unat a mod 4 * 16 + unat b div 16 < 64"
    "unat b mod 16 * 4 + unat c div 64 < 64" "unat c mod 64 < 64"
    using unat_byte [of a] unat_byte [of b] unat_byte [of c] by simp_all
  then show ?case using 4 by (simp add: Let_def b64_char_alphabet)
qed

lemma b64encode_fake_data: "b64encode fake_data = ''ZmFrZV9kYXRh''"
  by code_simp

text \<open>Splitting three bytes into four sextets, and joining them again.\<close>

lemma s1a: "(x::nat) < 256 \<Longrightarrow> x div 4 < 64" by simp
lemma s1b: "(x::nat) mod 4 * 16 < 64" 
proof -
  have "x mod 4 < 4" by simp
  then show ?thesis by linarith
qed
lemma s1c: "((x::nat) mod 4 * 16) mod 16 = 0" by simp
lemma s1d: "(x::nat) div 4 * 4 + (x mod 4 * 16) div 16 = x" by simp

lemma q16: "(y::nat) < 256 \<Longrightarrow> y div 16 < 16" by simp
lemma q64: "(z::nat) < 256 \<Longrightarrow> z div 64 < 4" by simp

lemma s2a: "(y::nat) < 256 \<Longrightarrow> (x::nat) mod 4 * 16 + y div 16 < 64"
  using s1b [of x] q16 [of y]
proof -
  assume "y < 256"
  then have "y div 16 < 16" by simp
  moreover have "x mod 4 \<le> 3" by linarith
  then have "x mod 4 * 16 \<le> 48" by linarith
  ultimately show ?thesis by linarith
qed
lemma s2b: "(y::nat) mod 16 * 4 < 64"
proof -
  have "y mod 16 < 16" by simp
  then show ?thesis by linarith
qed
lemma s2c: "((y::nat) mod 16 * 4) mod 4 = 0" by simp
lemma s2d: "(y::nat) < 256 \<Longrightarrow> (x::nat) div 4 * 4 + (x mod 4 * 16 + y div 16) div 16 = x"
  by (simp add: div_mult2_eq [symmetric])
lemma s2e: "(y::nat) < 256 \<Longrightarrow> ((x::nat) mod 4 * 16 + y div 16) mod 16 * 16 + (y mod 16 * 4) div 4 = y"
  by (simp add: q16)

lemma s3a: "(z::nat) < 256 \<Longrightarrow> (y::nat) mod 16 * 4 + z div 64 < 64"
proof -
  assume "z < 256"
  then have "z div 64 < 4" by simp
  moreover have "y mod 16 \<le> 15" by linarith
  then have "y mod 16 * 4 \<le> 60" by linarith
  ultimately show ?thesis by linarith
qed
lemma s3b: "(z::nat) mod 64 < 64" by simp
lemma s3c: "(y::nat) < 256 \<Longrightarrow> (z::nat) < 256 \<Longrightarrow>
   ((x::nat) mod 4 * 16 + y div 16) mod 16 * 16 + (y mod 16 * 4 + z div 64) div 4 = y"
  by (simp add: q16 q64)
lemma s3d: "(z::nat) < 256 \<Longrightarrow> ((y::nat) mod 16 * 4 + z div 64) mod 4 * 64 + z mod 64 = z"
  by (simp add: q64)

lemma b64_alphabet_distinct: "distinct b64_alphabet" "length b64_alphabet = 64"
  by (simp_all add: b64_alphabet_def)

lemma b64_val_char: "i < 64 \<Longrightarrow> b64_val (b64_char i) = Some i"
  unfolding b64_val_def b64_char_def
  using map_of_zip_nth [of b64_alphabet "[0..<64]" i] b64_alphabet_distinct by simp

lemma b64_val_SomeD: "b64_val c = Some i \<Longrightarrow> i < 64 \<and> c = b64_char i"
proof -
  assume "b64_val c = Some i"
  then have "(c, i) \<in> set (zip b64_alphabet [0..<64])"
    unfolding b64_val_def by (rule map_of_SomeD)
  then obtain n where "n < 64" "b64_alphabet ! n = c" "[0..<64] ! n = i"
    using b64_alphabet_distinct(2) by (auto simp: in_set_zip)
  then show ?thesis by (simp add: b64_char_def)
qed

lemma b64_val_pad: "b64_val CHR ''='' = None"
proof (cases "b64_val CHR ''=''")
  case (Some i)
  then have "CHR ''='' \<in> set b64_alphabet"
    using b64_val_SomeD [of "CHR ''=''" i] b64_alphabet_distinct(2)
    by (metis b64_char_def nth_mem)
  then show ?thesis by (simp add: b64_alphabet_def)
qed simp

lemma b64_char_not_pad: "i < 64 \<Longrightarrow> b64_char i \<noteq> CHR ''=''"
  using b64_val_char [of i] b64_val_pad by auto

lemma decode_pad2:
  "p < 64 \<Longrightarrow> q < 64 \<Longrightarrow>
   b64decode [b64_char p, b64_char q, CHR ''='', CHR ''=''] =
     (if q mod 16 = 0 then Some [of_nat (p * 4 + q div 16)] else None)"
  by (simp add: b64_val_char)

lemma decode_pad1:
  "p < 64 \<Longrightarrow> q < 64 \<Longrightarrow> r < 64 \<Longrightarrow>
   b64decode [b64_char p, b64_char q, b64_char r, CHR ''=''] =
     (if r mod 4 = 0
      then Some [of_nat (p * 4 + q div 16), of_nat (q mod 16 * 16 + r div 4)] else None)"
  by (simp add: b64_val_char b64_char_not_pad)

lemma decode_quad:
  "p < 64 \<Longrightarrow> q < 64 \<Longrightarrow> r < 64 \<Longrightarrow> s < 64 \<Longrightarrow>
   b64decode (b64_char p # b64_char q # b64_char r # b64_char s # rest) =
     (case b64decode rest of
        None \<Rightarrow> None
      | Some bs \<Rightarrow>
          Some (of_nat (p * 4 + q div 16) # of_nat (q mod 16 * 16 + r div 4) #
                of_nat (r mod 4 * 64 + s) # bs))"
  by (simp add: b64_val_char b64_char_not_pad)

lemma b64decode_encode: "b64decode (b64encode bs) = Some bs"
proof (induction bs rule: b64encode.induct)
  case 1
  show ?case by simp
next
  case (2 a)
  let ?x = "unat a"
  have x: "?x < 256" by (rule unat_byte)
  have "b64encode [a] = [b64_char (?x div 4), b64_char (?x mod 4 * 16), CHR ''='', CHR ''='']"
    by (simp add: Let_def)
  then have "b64decode (b64encode [a]) =
      (if (?x mod 4 * 16) mod 16 = 0
       then Some [of_nat (?x div 4 * 4 + (?x mod 4 * 16) div 16)] else None)"
    using decode_pad2 [OF s1a [OF x] s1b [of ?x]] by (simp only:)
  also have "\<dots> = Some [of_nat ?x]"
    by (simp only: s1c s1d if_True refl)
  finally show ?case by simp
next
  case (3 a b)
  let ?x = "unat a" and ?y = "unat b"
  have x: "?x < 256" and y: "?y < 256" by (rule unat_byte)+
  have "b64encode [a, b] =
      [b64_char (?x div 4), b64_char (?x mod 4 * 16 + ?y div 16), b64_char (?y mod 16 * 4),
       CHR ''='']"
    by (simp add: Let_def)
  then have "b64decode (b64encode [a, b]) =
      (if (?y mod 16 * 4) mod 4 = 0
       then Some [of_nat (?x div 4 * 4 + (?x mod 4 * 16 + ?y div 16) div 16),
                  of_nat ((?x mod 4 * 16 + ?y div 16) mod 16 * 16 + (?y mod 16 * 4) div 4)]
       else None)"
    using decode_pad1 [OF s1a [OF x] s2a [OF y, of ?x] s2b [of ?y]] by (simp only:)
  also have "\<dots> = Some [of_nat ?x, of_nat ?y]"
    by (simp only: s2c s2d [OF y] s2e [OF y] if_True refl)
  finally show ?case by simp
next
  case (4 a b c rest)
  let ?x = "unat a" and ?y = "unat b" and ?z = "unat c"
  have x: "?x < 256" and y: "?y < 256" and z: "?z < 256" by (rule unat_byte)+
  have ih: "b64decode (b64encode rest) = Some rest"
    using 4 by simp
  have "b64encode (a # b # c # rest) =
      b64_char (?x div 4) # b64_char (?x mod 4 * 16 + ?y div 16) #
      b64_char (?y mod 16 * 4 + ?z div 64) # b64_char (?z mod 64) # b64encode rest"
    by (simp add: Let_def)
  then have "b64decode (b64encode (a # b # c # rest)) =
      Some (of_nat (?x div 4 * 4 + (?x mod 4 * 16 + ?y div 16) div 16) #
            of_nat ((?x mod 4 * 16 + ?y div 16) mod 16 * 16 + (?y mod 16 * 4 + ?z div 64) div 4) #
            of_nat ((?y mod 16 * 4 + ?z div 64) mod 4 * 64 + ?z mod 64) # rest)"
    using decode_quad [OF s1a [OF x] s2a [OF y, of ?x] s3a [OF z, of ?y] s3b [of ?z],
        of "b64encode rest"]
    by (simp only: ih option.case)
  also have "\<dots> = Some (of_nat ?x # of_nat ?y # of_nat ?z # rest)"
    by (simp only: s2d [OF y] s3c [OF y z] s3d [OF z])
  finally show ?case by simp
qed

lemma d4: "(q::nat) < 64 \<Longrightarrow> q div 16 < 4" by simp
lemma d16: "(r::nat) < 64 \<Longrightarrow> r div 4 < 16" by simp

lemma unat_byte_of: "n < 256 \<Longrightarrow> unat (of_nat n :: 8 word) = n"
  by (simp add: unat_of_nat)

lemma r_x:
  fixes p q :: nat
  assumes "p < 64" "q < 64"
  shows "p * 4 + q div 16 < 256" "(p * 4 + q div 16) div 4 = p" "(p * 4 + q div 16) mod 4 = q div 16"
proof -
  have k: "q div 16 < 4" using assms by simp
  show "p * 4 + q div 16 < 256" using assms k by linarith
  show "(p * 4 + q div 16) div 4 = p" using k by simp
  show "(p * 4 + q div 16) mod 4 = q div 16" using k by simp
qed

lemma r_y:
  fixes q r :: nat
  assumes "r < 64"
  shows "q mod 16 * 16 + r div 4 < 256" "(q mod 16 * 16 + r div 4) div 16 = q mod 16"
    "(q mod 16 * 16 + r div 4) mod 16 = r div 4"
proof -
  have k: "r div 4 < 16" using assms by simp
  have m: "q mod 16 \<le> 15" by linarith
  show "q mod 16 * 16 + r div 4 < 256" using k m by linarith
  show "(q mod 16 * 16 + r div 4) div 16 = q mod 16" using k by simp
  show "(q mod 16 * 16 + r div 4) mod 16 = r div 4" using k by simp
qed

lemma r_z:
  fixes r s :: nat
  assumes "s < 64"
  shows "r mod 4 * 64 + s < 256" "(r mod 4 * 64 + s) div 64 = r mod 4"
    "(r mod 4 * 64 + s) mod 64 = s"
proof -
  have m: "r mod 4 \<le> 3" by linarith
  show "r mod 4 * 64 + s < 256" using assms m by linarith
  show "(r mod 4 * 64 + s) div 64 = r mod 4" using assms by simp
  show "(r mod 4 * 64 + s) mod 64 = s" using assms by simp
qed

lemma glue16: "(q::nat) div 16 * 16 + q mod 16 = q" by simp
lemma glue4: "(r::nat) div 4 * 4 + r mod 4 = r" by simp
lemma glue16z: "(q::nat) mod 16 = 0 \<Longrightarrow> q div 16 * 16 = q" by auto
lemma glue4z: "(r::nat) mod 4 = 0 \<Longrightarrow> r div 4 * 4 = r" by auto

lemma encode_pad2:
  assumes "p < 64" "q < 64" "q mod 16 = 0"
  shows "b64encode [of_nat (p * 4 + q div 16)] = [b64_char p, b64_char q, CHR ''='', CHR ''='']"
  using assms
  by (simp add: Let_def unat_byte_of r_x glue16z del: of_nat_add of_nat_mult)

lemma encode_pad1:
  assumes "p < 64" "q < 64" "r < 64" "r mod 4 = 0"
  shows "b64encode [of_nat (p * 4 + q div 16), of_nat (q mod 16 * 16 + r div 4)] =
           [b64_char p, b64_char q, b64_char r, CHR ''='']"
  using assms
  by (simp add: Let_def unat_byte_of r_x r_y glue16 glue4z del: of_nat_add of_nat_mult)

lemma encode_quad:
  assumes "p < 64" "q < 64" "r < 64" "s < 64"
  shows "b64encode (of_nat (p * 4 + q div 16) # of_nat (q mod 16 * 16 + r div 4) #
                    of_nat (r mod 4 * 64 + s) # bs) =
           b64_char p # b64_char q # b64_char r # b64_char s # b64encode bs"
  using assms
  by (simp add: Let_def unat_byte_of r_x r_y r_z glue16 glue4 del: of_nat_add of_nat_mult)

lemma b64encode_decode: "b64decode s = Some bs \<Longrightarrow> b64encode bs = s"
proof (induction s arbitrary: bs rule: b64decode.induct)
  case 1
  then show ?case by simp
next
  case (2 c1 c2 c3 c4 rest)
  from "2.prems" obtain p q where p: "b64_val c1 = Some p" and q: "b64_val c2 = Some q"
    by (auto split: option.splits)
  note P = b64_val_SomeD [OF p] and Q = b64_val_SomeD [OF q]
  show ?case
  proof (cases "rest = [] \<and> c4 = CHR ''='' \<and> c3 = CHR ''=''")
    case True
    with "2.prems" p q have "q mod 16 = 0" "bs = [of_nat (p * 4 + q div 16)]"
      by (auto split: if_splits)
    then show ?thesis
      using encode_pad2 [of p q] P Q True by simp
  next
    case False
    with "2.prems" p q obtain r where r: "b64_val c3 = Some r"
      by (auto split: option.splits)
    note R = b64_val_SomeD [OF r]
    show ?thesis
    proof (cases "rest = [] \<and> c4 = CHR ''=''")
      case True
      with "2.prems" p q r False have "r mod 4 = 0"
        "bs = [of_nat (p * 4 + q div 16), of_nat (q mod 16 * 16 + r div 4)]"
        by (auto split: if_splits)
      then show ?thesis
        using encode_pad1 [of p q r] P Q R True by simp
    next
      case F2: False
      with "2.prems" p q r False obtain s bs' where s: "b64_val c4 = Some s"
        and d: "b64decode rest = Some bs'"
        and bs: "bs = of_nat (p * 4 + q div 16) # of_nat (q mod 16 * 16 + r div 4) #
                   of_nat (r mod 4 * 64 + s) # bs'"
        by (auto split: option.splits)
      note S = b64_val_SomeD [OF s]
      have "b64encode bs' = rest"
        using "2.IH" [OF p q _ r _ s d] False F2 by blast
      then show ?thesis
        using encode_quad [of p q r s bs'] P Q R S bs by simp
    qed
  qed
qed simp_all

lemma openai_messages_valid:
  "new_ContentedMessage USER [TxtContent (c # text), ImgContent (ImgUrl (''data:image/png;base64,'' @ u))] =
     Inr \<lparr>cm_role = USER, cm_content = [TxtContent (c # text), ImgContent (ImgUrl (''data:image/png;base64,'' @ u))]\<rparr>"
  by (simp add: new_ContentedMessage_def)

lemma sent_messages_openai:
  assumes "read_file w (project_root w @ ''/dialx-banner.png'') = Inr image_bytes"
  shows "sent_messages (fst (start_openai_itt w)) =
     (let u = ''data:image/png;base64,'' @ b64encode image_bytes;
          m1 = Contented \<lparr>cm_role = USER, cm_content =
                 [TxtContent ''What's in this image? Please describe it in detail.'',
                  ImgContent (ImgUrl u)]\<rparr>;
          m2 = Contented \<lparr>cm_role = USER, cm_content =
                 [TxtContent ''Describe the color scheme and branding elements in this image.'',
                  ImgContent (ImgUrl u)]\<rparr>
      in case get_completion w 0 [m1] None of Inl e \<Rightarrow> [m1] | Inr r \<Rightarrow> [m1, m2])"
  using assms
  by (simp add: start_openai_itt_def sent_messages_def Let_def io_simps completion_calls_append
      new_ContentedMessage_def split: sum.splits)

lemma sent_messages_openai_unread:
  assumes "read_file w (project_root w @ ''/dialx-banner.png'') = Inl e"
  shows "sent_messages (fst (start_openai_itt w)) = []"
  using assms
  by (simp add: start_openai_itt_def sent_messages_def Let_def io_simps completion_calls_append)

lemma b64_vectors:
  "b64encode [] = []"
  "b64encode (take 1 foobar) = ''Zg==''"
  "b64encode (take 2 foobar) = ''Zm8=''"
  "b64encode (take 3 foobar) = ''Zm9v''"
  "b64encode (take 4 foobar) = ''Zm9vYg==''"
  "b64encode (take 5 foobar) = ''Zm9vYmE=''"
  "b64encode foobar = ''Zm9vYmFy''"
  by code_simp+

lemma b64_refused:
  "b64decode ''Zh=='' = None"
  "b64decode ''Zm9='' = None"
  "b64decode ''Zg='' = None"
  "b64decode ''Zg==Zg=='' = None"
  "b64decode ''Zm-v'' = None"
  by code_simp+

text \<open>
  Claim C7. Once the image file is read, the script sends at least one message, and every
  message it sends has the user role and exactly two content parts in this order: a text
  part with a non-empty text, then an image part whose url is \<^verbatim>\<open>data:image/png;base64,\<close>
  followed by the standard base64 encoding of the bytes read. That encoding is the
  standard's: the standard's decoder gives the bytes back from it, it is the only string
  the decoder maps to those bytes, it has four characters for every three bytes, rounded
  up, and all its characters are of the standard alphabet or the padding character.
\<close>

theorem openai_message_parts:
  assumes "read_file w (project_root w @ ''/dialx-banner.png'') = Inr image_bytes"
  shows "sent_messages (fst (start_openai_itt w)) \<noteq> [] \<and>
         (\<forall>m \<in> set (sent_messages (fst (start_openai_itt w))).
            \<exists>text. text \<noteq> [] \<and>
              m = Contented \<lparr>cm_role = USER, cm_content =
                    [TxtContent text,
                     ImgContent (ImgUrl (''data:image/png;base64,'' @ b64encode image_bytes))]\<rparr>) \<and>
         b64decode (b64encode image_bytes) = Some image_bytes \<and>
         (\<forall>s. b64decode s = Some image_bytes \<longrightarrow> s = b64encode image_bytes) \<and>
         length (b64encode image_bytes) = 4 * ((length image_bytes + 2) div 3) \<and>
         set (b64encode image_bytes) \<subseteq> set b64_alphabet \<union> {CHR ''=''}"
proof -
  have "sent_messages (fst (start_openai_itt w)) \<noteq> [] \<and>
         (\<forall>m \<in> set (sent_messages (fst (start_openai_itt w))).
            \<exists>text. text \<noteq> [] \<and>
              m = Contented \<lparr>cm_role = USER, cm_content =
                    [TxtContent text,
                     ImgContent (ImgUrl (''data:image/png;base64,'' @ b64encode image_bytes))]\<rparr>)"
    by (auto simp: sent_messages_openai [OF assms] Let_def split: sum.splits)
  moreover have "\<forall>s. b64decode s = Some image_bytes \<longrightarrow> s = b64encode image_bytes"
    using b64encode_decode by blast
  ultimately show ?thesis
    using b64decode_encode [of image_bytes] b64encode_length [of image_bytes]
      b64encode_chars [of image_bytes]
    by blast
qed

theorem openai_message_parts_witness:
  "sent_messages (fst (start_openai_itt (mock_world mock_response))) =
     [Contented \<lparr>cm_role = USER, cm_content =
        [TxtContent ''What's in this image? Please describe it in detail.'',
         ImgContent (ImgUrl ''data:image/png;base64,ZmFrZV9kYXRh'')]\<rparr>,
      Contented \<lparr>cm_role = USER, cm_content =
        [TxtContent ''Describe the color scheme and branding elements in this image.'',
         ImgContent (ImgUrl ''data:image/png;base64,ZmFrZV9kYXRh'')]\<rparr>] \<and>
   (\<exists>text. text \<noteq> [] \<and>
      hd (sent_messages (fst (start_openai_itt (mock_world mock_response)))) =
        Contented \<lparr>cm_role = USER, cm_content =
          [TxtContent text, ImgContent (ImgUrl (''data:image/png;base64,'' @ b64encode fake_data))]\<rparr>) \<and>
   b64encode fake_data = ''ZmFrZV9kYXRh'' \<and>
   b64decode ''ZmFrZV9kYXRh'' = Some fake_data \<and>
   length ''ZmFrZV9kYXRh'' = 4 * ((length fake_data + 2) div 3) \<and>
   b64encode (take 1 foobar) = ''Zg=='' \<and>
   b64encode (take 2 foobar) = ''Zm8='' \<and>
   b64encode (take 3 foobar) = ''Zm9v'' \<and>
   b64encode (take 4 foobar) = ''Zm9vYg=='' \<and>
   b64encode (take 5 foobar) = ''Zm9vYmE='' \<and>
   b64encode foobar = ''Zm9vYmFy'' \<and>
   b64decode ''Zh=='' = None \<and> b64decode ''Zm9='' = None \<and> b64decode ''Zg='' = None"
proof -
  let ?w = "mock_world mock_response"
  have r: "read_file ?w (project_root ?w @ ''/dialx-banner.png'') = Inr fake_data"
    by (simp add: mock_world_def)
  have g: "get_completion ?w = (\<lambda>k ms cf. Inr mock_response)"
    by (simp add: mock_world_def)
  have s: "sent_messages (fst (start_openai_itt ?w)) =
     [Contented \<lparr>cm_role = USER, cm_content =
        [TxtContent ''What's in this image? Please describe it in detail.'',
         ImgContent (ImgUrl ''data:image/png;base64,ZmFrZV9kYXRh'')]\<rparr>,
      Contented \<lparr>cm_role = USER, cm_content =
        [TxtContent ''Describe the color scheme and branding elements in this image.'',
         ImgContent (ImgUrl ''data:image/png;base64,ZmFrZV9kYXRh'')]\<rparr>]"
    by (simp add: sent_messages_openai [OF r] g b64encode_fake_data Let_def)
  note t = openai_message_parts [OF r]
  have ex: "\<exists>text. text \<noteq> [] \<and>
      hd (sent_messages (fst (start_openai_itt ?w))) =
        Contented \<lparr>cm_role = USER, cm_content =
          [TxtContent text, ImgContent (ImgUrl (''data:image/png;base64,'' @ b64encode fake_data))]\<rparr>"
    using t by (metis hd_in_set)
  have dec: "b64decode ''ZmFrZV9kYXRh'' = Some fake_data"
    using t by (simp only: b64encode_fake_data)
  have len: "length ''ZmFrZV9kYXRh'' = 4 * ((length fake_data + 2) div 3)"
    using t by (simp only: b64encode_fake_data)
  show ?thesis
    by (intro conjI s ex dec len b64encode_fake_data b64_vectors b64_refused)
qed

section \<open>The shape of the messages sent\<close>

lemma completion_calls_put_image: "completion_calls (fst (put_image w)) = []"
  by (simp add: put_image_def Let_def fst_async_with io_simps completion_calls_append
      split: option.splits sum.splits)

lemma sent_messages_dial:
  "sent_messages (fst (start_dial_itt w)) =
     (case snd (put_image w) of
        Inl e \<Rightarrow> []
      | Inr a \<Rightarrow>
          [Plain \<lparr>role = USER, content = Some ''What do you see on this picture?'',
                  custom_content = Some \<lparr>attachments = [a]\<rparr>\<rparr>])"
  by (simp add: start_dial_itt_def sent_messages_def Let_def io_simps completion_calls_append
      completion_calls_put_image split: sum.splits)

text \<open>
  Claim C8. Every message the three scripts send satisfies the content invariant. Those of
  the text-to-image script and of the store script carry one plain string, the prompt the
  script wrote; the store script's message has a custom content besides, holding the one
  uploaded attachment, and its string is unchanged by it. Those of the inline script carry
  a sequence of two parts and no custom content. A message has one shape only.
\<close>

theorem demo_messages_content_invariant:
  "(\<forall>m \<in> set (sent_messages (fst (start_tti w))).
      content_invariant m \<and> content_shape m = PlainString ''Sunny day on Bali'' \<and>
      custom_content_of m = None) \<and>
   (\<forall>m \<in> set (sent_messages (fst (start_dial_itt w))).
      content_invariant m \<and> content_shape m = PlainString ''What do you see on this picture?'' \<and>
      (\<exists>a. custom_content_of m = Some \<lparr>attachments = [a]\<rparr>)) \<and>
   (\<forall>m \<in> set (sent_messages (fst (start_openai_itt w))).
      content_invariant m \<and> (\<exists>t u. content_shape m = PartSequence [TxtContent t, ImgContent u]) \<and>
      custom_content_of m = None)"
proof (intro conjI)
  show "\<forall>m \<in> set (sent_messages (fst (start_tti w))).
      content_invariant m \<and> content_shape m = PlainString ''Sunny day on Bali'' \<and>
      custom_content_of m = None"
    by (simp add: sent_messages_def start_tti_calls)
  show "\<forall>m \<in> set (sent_messages (fst (start_dial_itt w))).
      content_invariant m \<and> content_shape m = PlainString ''What do you see on this picture?'' \<and>
      (\<exists>a. custom_content_of m = Some \<lparr>attachments = [a]\<rparr>)"
    by (cases "snd (put_image w)") (simp_all add: sent_messages_dial)
  show "\<forall>m \<in> set (sent_messages (fst (start_openai_itt w))).
      content_invariant m \<and> (\<exists>t u. content_shape m = PartSequence [TxtContent t, ImgContent u]) \<and>
      custom_content_of m = None"
  proof (cases "read_file w (project_root w @ ''/dialx-banner.png'')")
    case (Inl e)
    then show ?thesis by (simp add: sent_messages_openai_unread)
  next
    case (Inr image_bytes)
    then show ?thesis
      by (auto simp: sent_messages_openai Let_def split: sum.splits)
  qed
qed

theorem demo_messages_content_invariant_witness:
  "sent_messages (fst (start_tti (mock_world mock_response))) =
     [Plain \<lparr>role = USER, content = Some ''Sunny day on Bali'', custom_content = None\<rparr>] \<and>
   sent_messages (fst (start_dial_itt (mock_world mock_response))) =
     [Plain \<lparr>role = USER, content = Some ''What do you see on this picture?'',
        custom_content = Some \<lparr>attachments =
          [\<lparr>title = ''dialx-banner.png'',
            url = Some ''https://fake-bucket.example.com/files/dialx-banner.png'',
            type = ''image/png''\<rparr>]\<rparr>\<rparr>] \<and>
   length (sent_messages (fst (start_openai_itt (mock_world mock_response)))) = 2 \<and>
   list_all content_invariant (sent_messages (fst (start_tti (mock_world mock_response)))) \<and>
   list_all content_invariant (sent_messages (fst (start_dial_itt (mock_world mock_response)))) \<and>
   list_all content_invariant (sent_messages (fst (start_openai_itt (mock_world mock_response))))"
proof -
  let ?w = "mock_world mock_response"
  have t: "sent_messages (fst (start_tti ?w)) =
     [Plain \<lparr>role = USER, content = Some ''Sunny day on Bali'', custom_content = None\<rparr>]"
    by (simp add: sent_messages_def start_tti_calls)
  have p: "snd (put_image ?w) =
     Inr \<lparr>title = ''dialx-banner.png'',
          url = Some ''https://fake-bucket.example.com/files/dialx-banner.png'',
          type = ''image/png''\<rparr>"
    by (simp add: put_image_def Let_def snd_async_with io_simps mock_world_def)
  have d: "sent_messages (fst (start_dial_itt ?w)) =
     [Plain \<lparr>role = USER, content = Some ''What do you see on this picture?'',
        custom_content = Some \<lparr>attachments =
          [\<lparr>title = ''dialx-banner.png'',
            url = Some ''https://fake-bucket.example.com/files/dialx-banner.png'',
            type = ''image/png''\<rparr>]\<rparr>\<rparr>]"
    by (simp add: sent_messages_dial p)
  have r: "read_file ?w (project_root ?w @ ''/dialx-banner.png'') = Inr fake_data"
    by (simp add: mock_world_def)
  have g: "get_completion ?w = (\<lambda>k ms cf. Inr mock_response)"
    by (simp add: mock_world_def)
  have n: "length (sent_messages (fst (start_openai_itt ?w))) = 2"
    by (simp add: sent_messages_openai [OF r] g Let_def)
  show ?thesis
    using demo_messages_content_invariant [of ?w] t d n
    by (simp only: list_all_iff) simp
qed

section \<open>Constructing a multimodal message\<close>

text \<open>
  Claim C5. For every role, constructing a multimodal message from an empty content
  sequence fails with \<^verbatim>\<open>InvalidMessageError\<close>, and so does constructing one from a sequence
  that holds a text part with empty text or an image part with an empty url.
\<close>

theorem contented_message_rejects_empty:
  "new_ContentedMessage r [] = Inl InvalidMessageError \<and>
   (TxtContent [] \<in> set cs \<longrightarrow> new_ContentedMessage r cs = Inl InvalidMessageError) \<and>
   (ImgContent (ImgUrl []) \<in> set cs \<longrightarrow> new_ContentedMessage r cs = Inl InvalidMessageError)"
  by (auto simp: new_ContentedMessage_def list_ex_iff)

theorem contented_message_rejects_empty_witness:
  "new_ContentedMessage SYSTEM [] = Inl InvalidMessageError \<and>
   new_ContentedMessage USER [] = Inl InvalidMessageError \<and>
   new_ContentedMessage ASSISTANT [] = Inl InvalidMessageError \<and>
   new_ContentedMessage USER [TxtContent ''look'', TxtContent []] = Inl InvalidMessageError \<and>
   new_ContentedMessage USER [TxtContent ''look'', ImgContent (ImgUrl [])] = Inl InvalidMessageError \<and>
   new_ContentedMessage USER [TxtContent ''look'', ImgContent (ImgUrl ''data:,'')] =
     Inr \<lparr>cm_role = USER, cm_content = [TxtContent ''look'', ImgContent (ImgUrl ''data:,'')]\<rparr>"
proof -
  have "new_ContentedMessage USER [TxtContent ''look'', ImgContent (ImgUrl ''data:,'')] =
     Inr \<lparr>cm_role = USER, cm_content = [TxtContent ''look'', ImgContent (ImgUrl ''data:,'')]\<rparr>"
    by (simp add: new_ContentedMessage_def)
  then show ?thesis
    using contented_message_rejects_empty [of SYSTEM "[]"]
      contented_message_rejects_empty [of ASSISTANT "[]"]
      contented_message_rejects_empty [of USER "[TxtContent ''look'', TxtContent []]"]
      contented_message_rejects_empty [of USER "[TxtContent ''look'', ImgContent (ImgUrl [])]"]
    by simp
qed

section \<open>The round trip through the store\<close>

text \<open>
  Claim C3. Against a reachable store that accepts the caller's key, uploading a non-empty
  byte sequence under any name and MIME type succeeds and answers with a url, and
  downloading that url afterwards returns exactly the bytes uploaded.
\<close>

theorem store_round_trip:
  assumes "reachable s" and "api_key \<in> set (valid_keys s)" and "b \<noteq> []"
  shows "\<exists>response s' u.
           store_put_file s api_key name mime_type b = Inr (response, s') \<and>
           map_of response ''url'' = Some u \<and>
           store_get_file s' api_key u = Inr b"
  using assms by (simp add: store_put_file_def store_get_file_def Let_def)

theorem store_round_trip_witness:
  "reachable mock_store \<and> ''key'' \<in> set (valid_keys mock_store) \<and> fake_image_bytes \<noteq> [] \<and>
   (\<exists>response s' u.
      store_put_file mock_store ''key'' ''dialx-banner.png'' ''image/png'' fake_image_bytes =
        Inr (response, s') \<and>
      map_of response ''url'' = Some u \<and>
      store_get_file s' ''key'' u = Inr fake_image_bytes)"
proof -
  have h: "reachable mock_store" "''key'' \<in> set (valid_keys mock_store)" "fake_image_bytes \<noteq> []"
    by (simp_all add: mock_store_def fake_image_bytes_def)
  show ?thesis
    using h store_round_trip [OF h, of "''dialx-banner.png''" "''image/png''"] by simp
qed

section \<open>Importing the modules\<close>

lemma io_then_ret: "io_then m (ret ()) = m"
  by (cases m) (auto simp: io_then_def io_bind_def ret_def split: sum.splits)

lemma new_model_client_tti:
  "NewModelClient (DIAL_CHAT_COMPLETIONS_ENDPOINT w) ''dall-e-3'' (API_KEY w) \<in> set (fst (start_tti w))"
  by (simp add: start_tti_def Let_def io_simps)

lemma new_clients_dial:
  "NewModelClient (DIAL_CHAT_COMPLETIONS_ENDPOINT w) ''gpt-4o'' (API_KEY w) \<in> set (fst (start_dial_itt w))"
  "NewBucketClient (API_KEY w) (DIAL_URL w) \<in> set (fst (start_dial_itt w))"
  by (simp_all add: start_dial_itt_def put_image_def Let_def io_simps fst_async_with
      split: option.splits)

text \<open>
  Claim C10. Importing \<^verbatim>\<open>task.text_to_image.task_tti\<close> or
  \<^verbatim>\<open>task.image_to_text.task_dial_itt\<close> runs the whole of \<^verbatim>\<open>start()\<close>: the model client is
  constructed, the text-to-image script calls the gateway, the store script constructs the
  bucket client. Importing \<^verbatim>\<open>task.image_to_text.openai.task_openai_itt\<close> does nothing; the
  same module run as a script runs its \<^verbatim>\<open>start()\<close>.
\<close>

theorem import_runs_start:
  "import_task_tti w = start_tti w \<and>
   import_task_dial_itt w = start_dial_itt w \<and>
   import_task_openai_itt w = ret () \<and>
   run_task_openai_itt w = start_openai_itt w \<and>
   NewModelClient (DIAL_CHAT_COMPLETIONS_ENDPOINT w) ''dall-e-3'' (API_KEY w)
     \<in> set (fst (import_task_tti w)) \<and>
   length (completion_calls (fst (import_task_tti w))) = 1 \<and>
   NewModelClient (DIAL_CHAT_COMPLETIONS_ENDPOINT w) ''gpt-4o'' (API_KEY w)
     \<in> set (fst (import_task_dial_itt w)) \<and>
   NewBucketClient (API_KEY w) (DIAL_URL w) \<in> set (fst (import_task_dial_itt w)) \<and>
   fst (import_task_openai_itt w) = []"
proof -
  have t: "import_task_tti w = start_tti w"
    by (simp add: import_task_tti_def exec_module_def task_tti_toplevel_def io_then_ret)
  have d: "import_task_dial_itt w = start_dial_itt w"
    by (simp add: import_task_dial_itt_def exec_module_def task_dial_itt_toplevel_def io_then_ret)
  have o: "import_task_openai_itt w = ret ()"
    by (simp add: import_task_openai_itt_def exec_module_def task_openai_itt_toplevel_def
        io_then_ret)
  have r: "run_task_openai_itt w = start_openai_itt w"
    by (simp add: run_task_openai_itt_def exec_module_def task_openai_itt_toplevel_def
        io_then_ret)
  show ?thesis
    by (simp add: t d o r new_model_client_tti new_clients_dial start_tti_calls io_basic)
qed

theorem import_runs_start_witness:
  "import_task_tti (mock_world mock_response_empty) = start_tti (mock_world mock_response_empty) \<and>
   length (completion_calls (fst (import_task_tti (mock_world mock_response_empty)))) = 1 \<and>
   NewBucketClient ''key'' ''https://dial.example''
     \<in> set (fst (import_task_dial_itt (mock_world mock_response_empty))) \<and>
   import_task_openai_itt (mock_world mock_response_empty) = ([], Inr ()) \<and>
   length (completion_calls (fst (run_task_openai_itt (mock_world mock_response_empty)))) = 2"
proof -
  let ?w = "mock_world mock_response_empty"
  have k: "API_KEY ?w = ''key''" "DIAL_URL ?w = ''https://dial.example''"
    by (simp_all add: mock_world_def)
  have r: "read_file ?w (project_root ?w @ ''/dialx-banner.png'') = Inr fake_data"
    by (simp add: mock_world_def)
  have g: "get_completion ?w = (\<lambda>k ms cf. Inr mock_response_empty)"
    by (simp add: mock_world_def)
  have c: "length (completion_calls (fst (start_openai_itt ?w))) = 2"
    using r g
    by (simp add: start_openai_itt_def Let_def io_simps completion_calls_append
        new_ContentedMessage_def)
  show ?thesis
    using import_runs_start [of ?w] k c by (auto simp: ret_def)
qed

end
